theory Spec2Isabelle
  imports Main "HOL-Library.Word" "HOL-Library.Sublist"
begin

unbundle bit_operations_syntax

section \<open>Hidden-preferences filter of civitai (useApplyHiddenPreferences.ts)\<close>

text \<open>
  Numbers of the source (ids, nsfw levels, the browsing-level mask) are natural numbers.
  An optional or nullable field is an \<open>option\<close>; an optional boolean is a \<open>bool\<close> with
  absent read as \<open>False\<close>, which is how every condition of the source reads it.
  Field names carry a prefix per record, since several types share \<open>id\<close>, \<open>images\<close>, ...
\<close>

subsection \<open>Helpers that are imported by the source file\<close>

text \<open>
  Modelled from the spec: \<open>Flags.intersects\<close> (\<open>~/shared/utils\<close>) is not in the excerpt;
  the spec calls it the bit-intersection of an item's level with the viewer's mask.
\<close>

definition Flags_intersects :: "nat \<Rightarrow> nat \<Rightarrow> bool" where
  "Flags_intersects inst flag = (inst AND flag \<noteq> 0)"

text \<open>
  Modelled from the spec: \<open>parseBitwiseBrowsingLevel\<close> and \<open>Flags.maxValue\<close> are not in
  the excerpt. The spec describes the mask as one set bit per enabled tier and
  \<open>Flags.maxValue\<close> as the viewer's maximum enabled tier: the tiers are the values of the
  set bits, lowest first.
\<close>

function bitValues :: "nat \<Rightarrow> nat \<Rightarrow> nat list" where
  "bitValues w n =
     (if n = 0 then []
      else (if odd n then [w] else []) @ bitValues (2 * w) (n div 2))"
  by pat_completeness auto
termination
  by (relation "measure snd") auto

definition parseBitwiseBrowsingLevel :: "nat \<Rightarrow> nat list" where
  "parseBitwiseBrowsingLevel level = bitValues 1 level"

text \<open>\<open>Math.max\<close> of no argument is \<open>-Infinity\<close>, written \<open>None\<close>.\<close>

fun Math_max :: "nat list \<Rightarrow> nat option" where
  "Math_max [] = None"
| "Math_max (x # xs) = (case Math_max xs of None \<Rightarrow> Some x | Some m \<Rightarrow> Some (max x m))"

definition Flags_maxValue :: "nat \<Rightarrow> nat option" where
  "Flags_maxValue flag = Math_max (bitValues 1 flag)"

text \<open>\<open>n > m\<close> for a number \<open>n\<close> and a result \<open>m\<close> of \<open>Math.max\<close>.\<close>

fun exceeds :: "nat \<Rightarrow> nat option \<Rightarrow> bool" where
  "exceeds n None = True"
| "exceeds n (Some m) = (m < n)"

text \<open>
  Modelled from the spec: the enum \<open>NsfwLevel\<close> is not in the excerpt; the spec numbers
  the tiers PG = 1 and PG13 = 2.
\<close>

definition NsfwLevel_PG13 :: nat where
  "NsfwLevel_PG13 = 2"

subsection \<open>Data model\<close>

text \<open>The tally \<open>hidden\<close> of the source.\<close>

record hidden =
  h_unprocessed :: nat
  h_browsingLevel :: nat
  h_models :: nat
  h_images :: nat
  h_tags :: nat
  h_users :: nat
  h_noImages :: nat

definition hidden0 :: hidden where
  "hidden0 = \<lparr>h_unprocessed = 0, h_browsingLevel = 0, h_models = 0, h_images = 0,
     h_tags = 0, h_users = 0, h_noImages = 0\<rparr>"

text \<open>\<open>BaseImage\<close>; also the shape of the images of a post.\<close>

record image =
  i_id :: nat
  i_userId :: "nat option"
  i_user :: "nat option"
  i_tagIds :: "nat list option"
  i_nsfwLevel :: nat

text \<open>The images of a model.\<close>

record model_image =
  mi_id :: nat
  mi_tags :: "nat list option"
  mi_nsfwLevel :: nat
  mi_userId :: "nat option"

text \<open>The images of a collection or a bounty (and the featured image of a collection).\<close>

record owned_image =
  oi_id :: nat
  oi_tagIds :: "nat list option"
  oi_nsfwLevel :: nat
  oi_userId :: nat

record cover_image =
  ci_id :: nat
  ci_tags :: "nat list"
  ci_nsfwLevel :: nat

text \<open>
  \<open>BaseModel\<close>. \<open>m_user\<close> is \<open>user.id\<close>. The source reads \<open>images\<close> with \<open>?.\<close> and
  \<open>??\<close>, so the field may be absent.
\<close>

record model =
  m_id :: nat
  m_user :: nat
  m_images :: "model_image list option"
  m_tags :: "nat list option"
  m_nsfwLevel :: nat
  m_nsfw :: bool

record article =
  a_id :: nat
  a_user :: nat
  a_nsfwLevel :: nat
  a_tags :: "nat list option"
  a_coverImage :: "cover_image option"

record user =
  u_id :: nat

record collection =
  c_id :: nat
  c_userId :: "nat option"
  c_user :: "nat option"
  c_nsfwLevel :: nat
  c_image :: "owned_image option"
  c_images :: "owned_image list option"

text \<open>\<open>BaseBounty\<close>; the source reads \<open>images\<close> with \<open>??\<close> and \<open>?.\<close>.\<close>

record bounty =
  b_id :: nat
  b_user :: nat
  b_tags :: "nat list option"
  b_nsfwLevel :: nat
  b_nsfw :: bool
  b_images :: "owned_image list option"

record post =
  p_userId :: "nat option"
  p_user :: "nat option"
  p_nsfwLevel :: nat
  p_images :: "image list option"

text \<open>\<open>BaseTag\<close>; the entries of \<open>moderatedTags\<close> are read through the same two fields.\<close>

record tag =
  t_id :: nat
  t_nsfwLevel :: "nat option"

text \<open>
  The pair of \<open>type\<close> and \<open>data\<close>. The signature ties the shape of \<open>data\<close> to the key, so
  the pair is a tagged union, which is what \<open>paired\<close> returns; \<open>data\<close> may be absent.
  \<open>Unhandled k present\<close> is a key outside \<open>BaseDataTypeMap\<close>: its data is never read, only
  tested for presence.
\<close>

datatype typed_data =
    Models "model list option"
  | Images "image list option"
  | Articles "article list option"
  | Users "user list option"
  | Collections "collection list option"
  | Bounties "bounty list option"
  | Posts "post list option"
  | Tags "tag list option"
  | Unhandled string bool

record hiddenPreferences =
  hiddenModels :: "nat \<rightharpoonup> bool"
  hiddenImages :: "nat \<rightharpoonup> bool"
  hiddenTags :: "nat \<rightharpoonup> bool"
  hiddenUsers :: "nat \<rightharpoonup> bool"
  moderatedTags :: "tag list"
  hiddenLoading :: bool

record session_user =
  su_id :: nat
  su_isModerator :: bool

text \<open>\<open>FilterPreferencesProps\<close> without \<open>type\<close> and \<open>data\<close>.\<close>

record props =
  hiddenPreferences :: hiddenPreferences
  browsingLevel :: nat
  showHidden :: bool
  showImageless :: bool
  disabled :: bool
  currentUser :: "session_user option"
  allowLowerLevels :: bool

datatype error = UnhandledType | TypeError

subsection \<open>Small readings of JavaScript\<close>

text \<open>\<open>map.get(k)\<close> used as a condition.\<close>

definition Map_get :: "(nat \<rightharpoonup> bool) \<Rightarrow> nat \<Rightarrow> bool" where
  "Map_get m k = (case m k of None \<Rightarrow> False | Some b \<Rightarrow> b)"

text \<open>\<open>x ?? []\<close>.\<close>

definition orEmpty :: "'a list option \<Rightarrow> 'a list" where
  "orEmpty xs = (case xs of None \<Rightarrow> [] | Some ys \<Rightarrow> ys)"

text \<open>\<open>a ?? b\<close> on optional numbers.\<close>

definition orElse :: "nat option \<Rightarrow> nat option \<Rightarrow> nat option" where
  "orElse a b = (case a of None \<Rightarrow> b | Some x \<Rightarrow> Some x)"

text \<open>An optional number used as a condition: absent and 0 are falsy.\<close>

definition truthy :: "nat option \<Rightarrow> bool" where
  "truthy x = (case x of None \<Rightarrow> False | Some n \<Rightarrow> n \<noteq> 0)"

text \<open>\<open>for (const tag of tags) if (hiddenTags.get(tag)) return ...\<close>: is the return reached?\<close>

fun anyHidden :: "(nat \<rightharpoonup> bool) \<Rightarrow> nat list \<Rightarrow> bool" where
  "anyHidden m [] = False"
| "anyHidden m (t # ts) = (if Map_get m t then True else anyHidden m ts)"

text \<open>\<open>for (const tag of tags) if (hiddenTags.get(tag)) n++\<close>, a loop with no return.\<close>

fun countHidden :: "(nat \<rightharpoonup> bool) \<Rightarrow> nat list \<Rightarrow> nat \<Rightarrow> nat" where
  "countHidden m [] n = n"
| "countHidden m (t # ts) n = countHidden m ts (if Map_get m t then n + 1 else n)"

text \<open>\<open>xs.filter(cb)\<close> for a callback that updates the tally.\<close>

fun filter_st :: "('a \<Rightarrow> hidden \<Rightarrow> bool \<times> hidden) \<Rightarrow> 'a list \<Rightarrow> hidden \<Rightarrow> 'a list \<times> hidden" where
  "filter_st cb [] h = ([], h)"
| "filter_st cb (x # xs) h =
     (case cb x h of (keep, h1) \<Rightarrow>
        (case filter_st cb xs h1 of (ys, h2) \<Rightarrow> (if keep then x # ys else ys, h2)))"

text \<open>
  \<open>xs.map(cb).filter(isDefined)\<close> for a callback that updates the tally and may throw;
  \<open>null\<close> is \<open>None\<close>.
\<close>

fun map_st :: "('a \<Rightarrow> hidden \<Rightarrow> error + ('b option \<times> hidden)) \<Rightarrow> 'a list \<Rightarrow> hidden
    \<Rightarrow> error + ('b list \<times> hidden)" where
  "map_st cb [] h = Inr ([], h)"
| "map_st cb (x # xs) h =
     (case cb x h of
        Inl e \<Rightarrow> Inl e
      | Inr (y, h1) \<Rightarrow>
          (case map_st cb xs h1 of
             Inl e \<Rightarrow> Inl e
           | Inr (ys, h2) \<Rightarrow> Inr ((case y of None \<Rightarrow> ys | Some z \<Rightarrow> z # ys), h2)))"

definition isModerator :: "props \<Rightarrow> bool" where
  "isModerator p = (case currentUser p of None \<Rightarrow> False | Some u \<Rightarrow> su_isModerator u)"

text \<open>\<open>currentUser?.id\<close>.\<close>

definition currentUserId :: "props \<Rightarrow> nat option" where
  "currentUserId p = map_option su_id (currentUser p)"

definition maxSelectedLevel :: "props \<Rightarrow> nat option" where
  "maxSelectedLevel p = Math_max (parseBitwiseBrowsingLevel (browsingLevel p))"

definition maxBrowsingLevel :: "props \<Rightarrow> nat option" where
  "maxBrowsingLevel p = Flags_maxValue (browsingLevel p)"

subsection \<open>The callbacks of \<open>filterPreferences\<close>, one group per case of the switch\<close>

text \<open>case 'models': the callback of \<open>filter\<close>.\<close>

definition modelsFilter :: "props \<Rightarrow> model \<Rightarrow> hidden \<Rightarrow> bool \<times> hidden" where
  "modelsFilter p model h =
     (let userId = m_user model;
          isOwner = (Some userId = currentUserId p)
      in if (isOwner \<or> isModerator p) \<and> m_nsfwLevel model = 0 then (True, h)
         else if \<not> Flags_intersects (m_nsfwLevel model) (browsingLevel p)
           then (False, h\<lparr>h_browsingLevel := h_browsingLevel h + 1\<rparr>)
         else if userId \<noteq> 0 \<and> Map_get (hiddenUsers (hiddenPreferences p)) userId
           then (False, h\<lparr>h_users := h_users h + 1\<rparr>)
         else if Map_get (hiddenModels (hiddenPreferences p)) (m_id model) \<and> \<not> showHidden p
           then (False, h\<lparr>h_models := h_models h + 1\<rparr>)
         else if anyHidden (hiddenTags (hiddenPreferences p)) (orEmpty (m_tags model))
           then (False, h\<lparr>h_tags := h_tags h + 1\<rparr>)
         else (True, h))"

text \<open>The callback of \<open>images?.filter\<close> inside a model \<open>x\<close>; \<open>nsfw\<close> is \<open>x.nsfw\<close>.\<close>

definition modelImageFilter :: "props \<Rightarrow> bool \<Rightarrow> model_image \<Rightarrow> bool" where
  "modelImageFilter p nsfw i =
     (let userId = mi_userId i;
          isOwner = (truthy userId \<and> userId = currentUserId p)
      in if (isOwner \<or> isModerator p) \<and> mi_nsfwLevel i = 0 then True
         else if (if nsfw then exceeds (mi_nsfwLevel i) (maxSelectedLevel p)
                  else \<not> Flags_intersects (mi_nsfwLevel i) (browsingLevel p)) then False
         else if Map_get (hiddenImages (hiddenPreferences p)) (mi_id i) then False
         else if anyHidden (hiddenTags (hiddenPreferences p)) (orEmpty (mi_tags i)) then False
         else True)"

text \<open>
  The comparator of the sort returns 0 for two images that both intersect the browsing
  level or both do not, and puts an intersecting image first otherwise: a stable sort on
  the key 0 (intersects) or 1.
\<close>

definition sortRank :: "props \<Rightarrow> model_image \<Rightarrow> nat" where
  "sortRank p a = (if Flags_intersects (mi_nsfwLevel a) (browsingLevel p) then 0 else 1)"

text \<open>
  The callback of \<open>map\<close>, with its two constants \<open>filteredImages\<close> and
  \<open>sortedImages\<close> as functions of the model. \<open>sort\<close> sorts \<open>filteredImages\<close> in place
  and returns it, so the \<open>images\<close> of the result are the sorted ones.
\<close>

definition models_filteredImages :: "props \<Rightarrow> model \<Rightarrow> model_image list" where
  "models_filteredImages p x =
     (case m_images x of None \<Rightarrow> []
      | Some images \<Rightarrow> filter (modelImageFilter p (m_nsfw x)) images)"

definition models_sortedImages :: "props \<Rightarrow> model \<Rightarrow> model_image list" where
  "models_sortedImages p x =
     (if m_nsfw x then sort_key (sortRank p) (models_filteredImages p x)
      else models_filteredImages p x)"

definition modelsMap :: "props \<Rightarrow> model \<Rightarrow> hidden \<Rightarrow> error + (model option \<times> hidden)" where
  "modelsMap p x h =
     (let sortedImages = models_sortedImages p x;
          h1 = (if length sortedImages = 0 then h\<lparr>h_noImages := h_noImages h + 1\<rparr> else h)
      in Inr (if length sortedImages \<noteq> 0 \<or> showImageless p
                then Some (x\<lparr>m_images := Some sortedImages\<rparr>) else None, h1))"

text \<open>case 'images'.\<close>

definition imagesFilter :: "props \<Rightarrow> image \<Rightarrow> hidden \<Rightarrow> bool \<times> hidden" where
  "imagesFilter p img h =
     (let userId = orElse (i_userId img) (i_user img);
          isOwner = (truthy userId \<and> userId = currentUserId p)
      in if (isOwner \<or> isModerator p) \<and> i_nsfwLevel img = 0 then (True, h)
         else if (if allowLowerLevels p then exceeds (i_nsfwLevel img) (maxBrowsingLevel p)
                  else \<not> Flags_intersects (i_nsfwLevel img) (browsingLevel p))
           then (False, h\<lparr>h_browsingLevel := h_browsingLevel h + 1\<rparr>)
         else if truthy userId \<and> Map_get (hiddenUsers (hiddenPreferences p)) (the userId)
           then (False, h\<lparr>h_users := h_users h + 1\<rparr>)
         else if Map_get (hiddenImages (hiddenPreferences p)) (i_id img) \<and> \<not> showHidden p
           then (False, h\<lparr>h_images := h_images h + 1\<rparr>)
         else if anyHidden (hiddenTags (hiddenPreferences p)) (orEmpty (i_tagIds img))
           then (False, h\<lparr>h_tags := h_tags h + 1\<rparr>)
         else (True, h))"

text \<open>case 'articles'. \<open>article.user\<close> is an object, hence truthy.\<close>

definition articlesFilter :: "props \<Rightarrow> article \<Rightarrow> hidden \<Rightarrow> bool \<times> hidden" where
  "articlesFilter p article h =
     (let userId = a_user article;
          isOwner = (Some userId = currentUserId p)
      in if (isOwner \<or> isModerator p) \<and> a_nsfwLevel article = 0 then (True, h)
         else if \<not> Flags_intersects (a_nsfwLevel article) (browsingLevel p)
           then (False, h\<lparr>h_browsingLevel := h_browsingLevel h + 1\<rparr>)
         else if Map_get (hiddenUsers (hiddenPreferences p)) (a_user article)
           then (False, h\<lparr>h_users := h_users h + 1\<rparr>)
         else if anyHidden (hiddenTags (hiddenPreferences p)) (orEmpty (a_tags article))
           then (False, h\<lparr>h_tags := h_tags h + 1\<rparr>)
         else (case a_coverImage article of
                 None \<Rightarrow> (True, h)
               | Some coverImage \<Rightarrow>
                   if Map_get (hiddenImages (hiddenPreferences p)) (ci_id coverImage)
                     then (False, h\<lparr>h_images := h_images h + 1\<rparr>)
                   else if anyHidden (hiddenTags (hiddenPreferences p)) (ci_tags coverImage)
                     then (False, h\<lparr>h_tags := h_tags h + 1\<rparr>)
                   else (True, h)))"

text \<open>case 'users'.\<close>

definition usersFilter :: "props \<Rightarrow> user \<Rightarrow> hidden \<Rightarrow> bool \<times> hidden" where
  "usersFilter p user h =
     (if Some (u_id user) = currentUserId p then (True, h)
      else if Map_get (hiddenUsers (hiddenPreferences p)) (u_id user)
        then (False, h\<lparr>h_users := h_users h + 1\<rparr>)
      else (True, h))"

text \<open>
  case 'collections'. The loop over the tags of the featured image adds to
  \<open>hidden.images\<close> and does not return.
\<close>

definition collectionsFilter :: "props \<Rightarrow> collection \<Rightarrow> hidden \<Rightarrow> bool \<times> hidden" where
  "collectionsFilter p collection h =
     (let userId = orElse (c_userId collection) (c_user collection);
          isOwner = (truthy userId \<and> userId = currentUserId p)
      in if (isOwner \<or> isModerator p) \<and> c_nsfwLevel collection = 0 then (True, h)
         else if \<not> Flags_intersects (c_nsfwLevel collection) (browsingLevel p)
           then (False, h\<lparr>h_browsingLevel := h_browsingLevel h + 1\<rparr>)
         else if truthy userId \<and> Map_get (hiddenUsers (hiddenPreferences p)) (the userId)
           then (False, h\<lparr>h_users := h_users h + 1\<rparr>)
         else (case c_image collection of
                 None \<Rightarrow> (True, h)
               | Some img \<Rightarrow>
                   if Map_get (hiddenImages (hiddenPreferences p)) (oi_id img)
                     then (False, h\<lparr>h_images := h_images h + 1\<rparr>)
                   else (True, h\<lparr>h_images :=
                           countHidden (hiddenTags (hiddenPreferences p))
                             (orEmpty (oi_tagIds img)) (h_images h)\<rparr>)))"

text \<open>The callback on the images of a collection or a bounty.\<close>

definition ownedImageFilter :: "props \<Rightarrow> owned_image \<Rightarrow> bool" where
  "ownedImageFilter p i =
     (let userId = oi_userId i;
          isOwner = (Some userId = currentUserId p)
      in if (isOwner \<or> isModerator p) \<and> oi_nsfwLevel i = 0 then True
         else if \<not> Flags_intersects (oi_nsfwLevel i) (browsingLevel p) then False
         else if Map_get (hiddenImages (hiddenPreferences p)) (oi_id i) then False
         else if anyHidden (hiddenTags (hiddenPreferences p)) (orEmpty (oi_tagIds i)) then False
         else True)"

text \<open>
  The callback of \<open>map\<close>: \<open>images\<close> defaults to \<open>[]\<close>, the featured image is appended,
  and the result has no \<open>image\<close> field.
\<close>

definition collections_filteredImages :: "props \<Rightarrow> collection \<Rightarrow> owned_image list" where
  "collections_filteredImages p x =
     (let images = orEmpty (c_images x);
          mergedImages = (case c_image x of None \<Rightarrow> images | Some img \<Rightarrow> images @ [img])
      in filter (ownedImageFilter p) mergedImages)"

definition collectionsMap ::
    "props \<Rightarrow> collection \<Rightarrow> hidden \<Rightarrow> error + (collection option \<times> hidden)" where
  "collectionsMap p x h =
     (let filteredImages = collections_filteredImages p x;
          h1 = (if length filteredImages = 0 then h\<lparr>h_noImages := h_noImages h + 1\<rparr> else h)
      in Inr (if length filteredImages \<noteq> 0 \<or> showImageless p
                then Some (x\<lparr>c_image := None, c_images := Some filteredImages\<rparr>) else None, h1))"

text \<open>case 'bounties'.\<close>

definition bountiesFilter :: "props \<Rightarrow> bounty \<Rightarrow> hidden \<Rightarrow> bool \<times> hidden" where
  "bountiesFilter p bounty h =
     (let userId = b_user bounty;
          isOwner = (Some userId = currentUserId p)
      in if (isOwner \<or> isModerator p) \<and> b_nsfwLevel bounty = 0 then (True, h)
         else if \<not> Flags_intersects (b_nsfwLevel bounty) (browsingLevel p)
           then (False, h\<lparr>h_browsingLevel := h_browsingLevel h + 1\<rparr>)
         else if Map_get (hiddenUsers (hiddenPreferences p)) (b_user bounty)
           then (False, h\<lparr>h_users := h_users h + 1\<rparr>)
         else if anyHidden (hiddenImages (hiddenPreferences p)) (map oi_id (orEmpty (b_images bounty)))
           then (False, h\<lparr>h_images := h_images h + 1\<rparr>)
         else if anyHidden (hiddenTags (hiddenPreferences p)) (orEmpty (b_tags bounty))
           then (False, h\<lparr>h_tags := h_tags h + 1\<rparr>)
         else (True, h))"

text \<open>
  The callback of \<open>map\<close>. \<open>images?.filter(...)\<close> is \<open>undefined\<close> for absent images;
  \<open>filteredImages?.length === 0\<close> is then false, and \<open>filteredImages.length\<close> throws a
  TypeError. \<open>showImageless\<close> is not read.
\<close>

definition bounties_filteredImages :: "props \<Rightarrow> bounty \<Rightarrow> owned_image list option" where
  "bounties_filteredImages p x = map_option (filter (ownedImageFilter p)) (b_images x)"

definition bountiesMap :: "props \<Rightarrow> bounty \<Rightarrow> hidden \<Rightarrow> error + (bounty option \<times> hidden)" where
  "bountiesMap p x h =
     (let filteredImages = bounties_filteredImages p x;
          h1 = (if map_option length filteredImages = Some 0
                  then h\<lparr>h_noImages := h_noImages h + 1\<rparr> else h)
      in case filteredImages of
           None \<Rightarrow> Inl TypeError
         | Some fi \<Rightarrow>
             Inr (if length fi \<noteq> 0 then Some (x\<lparr>b_images := Some fi\<rparr>) else None, h1))"

text \<open>case 'posts'.\<close>

definition postsFilter :: "props \<Rightarrow> post \<Rightarrow> hidden \<Rightarrow> bool \<times> hidden" where
  "postsFilter p post h =
     (let userId = orElse (p_userId post) (p_user post);
          isOwner = (truthy userId \<and> userId = currentUserId p)
      in if (isOwner \<or> isModerator p) \<and> p_nsfwLevel post = 0 then (True, h)
         else if \<not> Flags_intersects (p_nsfwLevel post) (browsingLevel p)
           then (False, h\<lparr>h_browsingLevel := h_browsingLevel h + 1\<rparr>)
         else if truthy userId \<and> Map_get (hiddenUsers (hiddenPreferences p)) (the userId)
           then (False, h\<lparr>h_users := h_users h + 1\<rparr>)
         else (True, h))"

text \<open>
  The callback on the images of a post. \<open>isOwner\<close> is a bare \<open>===\<close>: an image with no
  user and a viewer who is not logged in compare \<open>undefined === undefined\<close>.
\<close>

definition postImageFilter :: "props \<Rightarrow> image \<Rightarrow> bool" where
  "postImageFilter p img =
     (let userId = orElse (i_userId img) (i_user img);
          isOwner = (userId = currentUserId p)
      in if (isOwner \<or> isModerator p) \<and> i_nsfwLevel img = 0 then True
         else if \<not> Flags_intersects (i_nsfwLevel img) (browsingLevel p) then False
         else if Map_get (hiddenImages (hiddenPreferences p)) (i_id img) then False
         else if anyHidden (hiddenTags (hiddenPreferences p)) (orEmpty (i_tagIds img)) then False
         else True)"

definition postsMap :: "props \<Rightarrow> post \<Rightarrow> hidden \<Rightarrow> error + (post option \<times> hidden)" where
  "postsMap p post h =
     (case p_images post of
        None \<Rightarrow> Inr (Some post, h)
      | Some images \<Rightarrow>
          (let filteredImages = filter (postImageFilter p) images;
               h1 = (if length filteredImages = 0 then h\<lparr>h_noImages := h_noImages h + 1\<rparr> else h)
           in Inr (if length filteredImages \<noteq> 0 \<or> showImageless p
                     then Some (post\<lparr>p_images := Some filteredImages\<rparr>) else None, h1)))"

text \<open>case 'tags'.\<close>

definition moderatedTagIds :: "props \<Rightarrow> nat list" where
  "moderatedTagIds p =
     map t_id (filter (\<lambda>x. truthy (t_nsfwLevel x) \<and>
                           Flags_intersects (the (t_nsfwLevel x)) (browsingLevel p))
                 (moderatedTags (hiddenPreferences p)))"

definition tagsFilter :: "props \<Rightarrow> tag \<Rightarrow> hidden \<Rightarrow> bool \<times> hidden" where
  "tagsFilter p tag h =
     (if Map_get (hiddenTags (hiddenPreferences p)) (t_id tag)
        then (False, h\<lparr>h_tags := h_tags h + 1\<rparr>)
      else if truthy (t_nsfwLevel tag) \<and> the (t_nsfwLevel tag) > NsfwLevel_PG13 \<and>
              t_id tag \<notin> set (moderatedTagIds p)
        then (False, h\<lparr>h_browsingLevel := h_browsingLevel h + 1\<rparr>)
      else (True, h))"

subsection \<open>\<open>filterPreferences\<close>\<close>

text \<open>\<open>!data\<close>: an array is truthy, also an empty one.\<close>

fun dataAbsent :: "typed_data \<Rightarrow> bool" where
  "dataAbsent (Models d) = (d = None)"
| "dataAbsent (Images d) = (d = None)"
| "dataAbsent (Articles d) = (d = None)"
| "dataAbsent (Users d) = (d = None)"
| "dataAbsent (Collections d) = (d = None)"
| "dataAbsent (Bounties d) = (d = None)"
| "dataAbsent (Posts d) = (d = None)"
| "dataAbsent (Tags d) = (d = None)"
| "dataAbsent (Unhandled k present) = (\<not> present)"

text \<open>The \<open>items: []\<close> of the early return, at the type of the call.\<close>

fun noItems :: "typed_data \<Rightarrow> typed_data" where
  "noItems (Models d) = Models (Some [])"
| "noItems (Images d) = Images (Some [])"
| "noItems (Articles d) = Articles (Some [])"
| "noItems (Users d) = Users (Some [])"
| "noItems (Collections d) = Collections (Some [])"
| "noItems (Bounties d) = Bounties (Some [])"
| "noItems (Posts d) = Posts (Some [])"
| "noItems (Tags d) = Tags (Some [])"
| "noItems (Unhandled k present) = Unhandled k True"

text \<open>\<open>value.filter(f).map(g).filter(isDefined)\<close>, with the tally threaded through.\<close>

definition filterMap ::
    "('a \<Rightarrow> hidden \<Rightarrow> bool \<times> hidden) \<Rightarrow> ('a \<Rightarrow> hidden \<Rightarrow> error + ('a option \<times> hidden))
      \<Rightarrow> 'a list \<Rightarrow> hidden \<Rightarrow> error + ('a list \<times> hidden)" where
  "filterMap f g xs h = (case filter_st f xs h of (ys, h1) \<Rightarrow> map_st g ys h1)"

text \<open>The switch, entered with data present.\<close>

fun switchKey :: "props \<Rightarrow> typed_data \<Rightarrow> hidden \<Rightarrow> error + (typed_data \<times> hidden)" where
  "switchKey p (Models d) h =
     map_sum id (map_prod (Models \<circ> Some) id) (filterMap (modelsFilter p) (modelsMap p) (orEmpty d) h)"
| "switchKey p (Images d) h =
     Inr (map_prod (Images \<circ> Some) id (filter_st (imagesFilter p) (orEmpty d) h))"
| "switchKey p (Articles d) h =
     Inr (map_prod (Articles \<circ> Some) id (filter_st (articlesFilter p) (orEmpty d) h))"
| "switchKey p (Users d) h =
     Inr (map_prod (Users \<circ> Some) id (filter_st (usersFilter p) (orEmpty d) h))"
| "switchKey p (Collections d) h =
     map_sum id (map_prod (Collections \<circ> Some) id)
       (filterMap (collectionsFilter p) (collectionsMap p) (orEmpty d) h)"
| "switchKey p (Bounties d) h =
     map_sum id (map_prod (Bounties \<circ> Some) id)
       (filterMap (bountiesFilter p) (bountiesMap p) (orEmpty d) h)"
| "switchKey p (Posts d) h =
     map_sum id (map_prod (Posts \<circ> Some) id) (filterMap (postsFilter p) (postsMap p) (orEmpty d) h)"
| "switchKey p (Tags d) h =
     Inr (map_prod (Tags \<circ> Some) id (filter_st (tagsFilter p) (orEmpty d) h))"
| "switchKey p (Unhandled k present) h = Inl UnhandledType"

text \<open>The result is the pair of \<open>items\<close> and \<open>hidden\<close>; a thrown error is \<open>Inl\<close>.\<close>

definition filterPreferences :: "typed_data \<Rightarrow> props \<Rightarrow> error + (typed_data \<times> hidden)" where
  "filterPreferences td p =
     (let hidden = hidden0
      in if dataAbsent td \<or> disabled p \<or> hiddenLoading (hiddenPreferences p)
           then Inr (noItems td, hidden)
         else switchKey p td hidden)"

subsection \<open>The hook \<open>useApplyHiddenPreferences\<close>\<close>

text \<open>
  One render of the hook, with the memoised block evaluated. What the hook reads from
  React and from its providers is the environment: the session user, the state
  \<open>previous\<close>, the debounced browsing level and the hidden-preferences context.
\<close>

record hook_env =
  e_currentUser :: "session_user option"
  e_previous :: typed_data
  e_systemBrowsingLevel :: nat
  e_hiddenPreferences :: hiddenPreferences

record hook_args =
  a_typed_data :: typed_data
  a_showHidden :: bool
  a_showImageless :: bool
  a_disabled :: bool
  a_isRefetching :: bool
  a_hiddenImages :: "nat list"
  a_hiddenUsers :: "nat list"
  a_hiddenTags :: "nat list"
  a_browsingLevel :: "nat option"
  a_allowLowerLevels :: bool

record hook_result =
  loadingPreferences :: bool
  items :: typed_data
  hiddenCount :: nat

text \<open>\<open>new Map([...m, ...ids.map((id) => [id, true])])\<close>, built when \<open>ids\<close> is not empty.\<close>

definition withHidden :: "(nat \<rightharpoonup> bool) \<Rightarrow> nat list \<Rightarrow> (nat \<rightharpoonup> bool)" where
  "withHidden m ids = (if length ids > 0 then foldl (\<lambda>acc k. acc(k \<mapsto> True)) m ids else m)"

definition mergedPreferences :: "hook_args \<Rightarrow> hook_env \<Rightarrow> hiddenPreferences" where
  "mergedPreferences a e =
     (e_hiddenPreferences e)
       \<lparr>hiddenImages := withHidden (hiddenImages (e_hiddenPreferences e)) (a_hiddenImages a),
        hiddenUsers := withHidden (hiddenUsers (e_hiddenPreferences e)) (a_hiddenUsers a),
        hiddenTags := withHidden (hiddenTags (e_hiddenPreferences e)) (a_hiddenTags a)\<rparr>"

text \<open>The argument of the call of \<open>filterPreferences\<close> in the hook.\<close>

definition hookProps :: "hook_args \<Rightarrow> hook_env \<Rightarrow> props" where
  "hookProps a e =
     \<lparr>hiddenPreferences = mergedPreferences a e,
      browsingLevel = (case a_browsingLevel a of None \<Rightarrow> e_systemBrowsingLevel e | Some l \<Rightarrow> l),
      showHidden = a_showHidden a,
      showImageless = a_showImageless a,
      disabled = a_disabled a,
      currentUser = e_currentUser e,
      allowLowerLevels = a_allowLowerLevels a\<rparr>"

definition useApplyHiddenPreferences :: "hook_args \<Rightarrow> hook_env \<Rightarrow> error + hook_result" where
  "useApplyHiddenPreferences a e =
     (case filterPreferences (a_typed_data a) (hookProps a e) of
        Inl err \<Rightarrow> Inl err
      | Inr (its, hidden) \<Rightarrow>
          Inr \<lparr>loadingPreferences = hiddenLoading (e_hiddenPreferences e),
               items = (if a_isRefetching a then e_previous e else its),
               hiddenCount = h_browsingLevel hidden + h_models hidden + h_images hidden
                             + h_tags hidden + h_users hidden\<rparr>)"

subsection \<open>Notions used to state the properties\<close>

text \<open>The sum of all counters of a tally.\<close>

definition tallySum :: "hidden \<Rightarrow> nat" where
  "tallySum h = h_unprocessed h + h_browsingLevel h + h_models h + h_images h + h_tags h
             + h_users h + h_noImages h"

text \<open>What a callback of \<open>filter\<close> answers for an item, and what a callback of \<open>map\<close> returns.\<close>

definition verdict :: "('a \<Rightarrow> hidden \<Rightarrow> bool \<times> hidden) \<Rightarrow> 'a \<Rightarrow> bool" where
  "verdict cb x = fst (cb x hidden0)"

definition mapped :: "('a \<Rightarrow> hidden \<Rightarrow> error + ('b option \<times> hidden)) \<Rightarrow> 'a \<Rightarrow> 'b option" where
  "mapped cb x = (case cb x hidden0 of Inl e \<Rightarrow> None | Inr (y, h) \<Rightarrow> y)"

text \<open>The step of a callback of \<open>map\<close> on the tally: \<open>hidden.noImages++\<close> under a condition.\<close>

definition bump :: "bool \<Rightarrow> hidden \<Rightarrow> hidden" where
  "bump c h = (if c then h\<lparr>h_noImages := h_noImages h + 1\<rparr> else h)"

text \<open>The early return is taken.\<close>

definition shortCircuit :: "typed_data \<Rightarrow> props \<Rightarrow> bool" where
  "shortCircuit td p = (dataAbsent td \<or> disabled p \<or> hiddenLoading (hiddenPreferences p))"

text \<open>The key is one of the eight of \<open>BaseDataTypeMap\<close>.\<close>

fun handledKey :: "typed_data \<Rightarrow> bool" where
  "handledKey (Unhandled k present) = False"
| "handledKey td = True"

text \<open>
  The first test of the callbacks: the viewer owns the item or is a moderator, and the
  level of the item is 0.
\<close>

definition models_exempt :: "props \<Rightarrow> model \<Rightarrow> bool" where
  "models_exempt p x = ((Some (m_user x) = currentUserId p \<or> isModerator p) \<and> m_nsfwLevel x = 0)"

definition images_exempt :: "props \<Rightarrow> image \<Rightarrow> bool" where
  "images_exempt p x =
     ((truthy (orElse (i_userId x) (i_user x)) \<and> orElse (i_userId x) (i_user x) = currentUserId p
       \<or> isModerator p) \<and> i_nsfwLevel x = 0)"

definition articles_exempt :: "props \<Rightarrow> article \<Rightarrow> bool" where
  "articles_exempt p x = ((Some (a_user x) = currentUserId p \<or> isModerator p) \<and> a_nsfwLevel x = 0)"

definition collections_exempt :: "props \<Rightarrow> collection \<Rightarrow> bool" where
  "collections_exempt p x =
     ((truthy (orElse (c_userId x) (c_user x)) \<and> orElse (c_userId x) (c_user x) = currentUserId p
       \<or> isModerator p) \<and> c_nsfwLevel x = 0)"

definition bounties_exempt :: "props \<Rightarrow> bounty \<Rightarrow> bool" where
  "bounties_exempt p x = ((Some (b_user x) = currentUserId p \<or> isModerator p) \<and> b_nsfwLevel x = 0)"

definition posts_exempt :: "props \<Rightarrow> post \<Rightarrow> bool" where
  "posts_exempt p x =
     ((truthy (orElse (p_userId x) (p_user x)) \<and> orElse (p_userId x) (p_user x) = currentUserId p
       \<or> isModerator p) \<and> p_nsfwLevel x = 0)"




text \<open>Every bounty carries its array of images, as \<open>BaseBounty\<close> declares.\<close>

fun imagesPresent :: "typed_data \<Rightarrow> bool" where
  "imagesPresent (Bounties d) = (\<forall>b\<in>set (orEmpty d). b_images b \<noteq> None)"
| "imagesPresent td = True"





subsection \<open>Example inputs\<close>

definition prefs0 :: hiddenPreferences where
  "prefs0 = \<lparr>hiddenModels = Map.empty, hiddenImages = Map.empty, hiddenTags = Map.empty,
     hiddenUsers = Map.empty, moderatedTags = [], hiddenLoading = False\<rparr>"

text \<open>Viewer 7, not a moderator, browsing PG and PG13.\<close>

definition props0 :: props where
  "props0 = \<lparr>hiddenPreferences = prefs0, browsingLevel = 3, showHidden = False,
     showImageless = False, disabled = False,
     currentUser = Some \<lparr>su_id = 7, su_isModerator = False\<rparr>, allowLowerLevels = False\<rparr>"

text \<open>A model of viewer 7 with level 0 and one image of level 4 (R).\<close>

definition model0 :: model where
  "model0 = \<lparr>m_id = 1, m_user = 7,
     m_images = Some [\<lparr>mi_id = 10, mi_tags = None, mi_nsfwLevel = 4, mi_userId = None\<rparr>],
     m_tags = None, m_nsfwLevel = 0, m_nsfw = False\<rparr>"

text \<open>A post, a collection and a bounty of viewer 7, level 0, each with one image of level 4.\<close>

definition post0 :: post where
  "post0 = \<lparr>p_userId = Some 7, p_user = None, p_nsfwLevel = 0,
     p_images = Some [\<lparr>i_id = 11, i_userId = None, i_user = None, i_tagIds = None,
                       i_nsfwLevel = 4\<rparr>]\<rparr>"

definition collection0 :: collection where
  "collection0 = \<lparr>c_id = 2, c_userId = Some 7, c_user = None, c_nsfwLevel = 0, c_image = None,
     c_images = Some [\<lparr>oi_id = 12, oi_tagIds = None, oi_nsfwLevel = 4, oi_userId = 8\<rparr>]\<rparr>"

definition bounty0 :: bounty where
  "bounty0 = \<lparr>b_id = 3, b_user = 7, b_tags = None, b_nsfwLevel = 0, b_nsfw = False,
     b_images = Some [\<lparr>oi_id = 13, oi_tagIds = None, oi_nsfwLevel = 4, oi_userId = 8\<rparr>]\<rparr>"

text \<open>
  Preferences that hide model 1, image 20, tag 5 and user 7, and a call with them that
  keeps imageless parents.
\<close>

definition prefs1 :: hiddenPreferences where
  "prefs1 = \<lparr>hiddenModels = [1 \<mapsto> True], hiddenImages = [20 \<mapsto> True], hiddenTags = [5 \<mapsto> True],
     hiddenUsers = [7 \<mapsto> True], moderatedTags = [], hiddenLoading = False\<rparr>"

definition props1 :: props where
  "props1 = props0\<lparr>hiddenPreferences := prefs1, showImageless := True\<rparr>"

text \<open>An image and an article of viewer 7, level 0, with the hidden tag 5.\<close>

definition image0 :: image where
  "image0 = \<lparr>i_id = 20, i_userId = Some 7, i_user = None, i_tagIds = Some [5], i_nsfwLevel = 0\<rparr>"

definition article0 :: article where
  "article0 = \<lparr>a_id = 4, a_user = 7, a_nsfwLevel = 0, a_tags = Some [5], a_coverImage = None\<rparr>"

text \<open>A bounty of viewer 7, level 0, with one image of level 1 (PG).\<close>

definition bounty1 :: bounty where
  "bounty1 = \<lparr>b_id = 5, b_user = 7, b_tags = Some [5], b_nsfwLevel = 0, b_nsfw = False,
     b_images = Some [\<lparr>oi_id = 14, oi_tagIds = None, oi_nsfwLevel = 1, oi_userId = 8\<rparr>]\<rparr>"

text \<open>
  Items of user 8 with level 1 (PG), which viewer 7 sees under the mask 3; the model has
  the levels 1 and 2.
\<close>

definition image1 :: image where
  "image1 = \<lparr>i_id = 21, i_userId = Some 8, i_user = None, i_tagIds = None, i_nsfwLevel = 1\<rparr>"




definition bounty2 :: bounty where
  "bounty2 = \<lparr>b_id = 9, b_user = 8, b_tags = None, b_nsfwLevel = 1, b_nsfw = False,
     b_images = Some [\<lparr>oi_id = 17, oi_tagIds = None, oi_nsfwLevel = 1, oi_userId = 8\<rparr>]\<rparr>"

definition post1 :: post where
  "post1 = \<lparr>p_userId = Some 8, p_user = None, p_nsfwLevel = 1, p_images = None\<rparr>"


text \<open>A model of user 8 with level 4 (R), and an image of viewer 7 with no tag.\<close>

definition model2 :: model where
  "model2 = \<lparr>m_id = 22, m_user = 8, m_images = None, m_tags = None, m_nsfwLevel = 4,
     m_nsfw = False\<rparr>"

text \<open>A collection of user 8 whose featured image carries the hidden tag 5.\<close>

definition collection2 :: collection where
  "collection2 = \<lparr>c_id = 23, c_userId = Some 8, c_user = None, c_nsfwLevel = 1,
     c_image = Some \<lparr>oi_id = 18, oi_tagIds = Some [5], oi_nsfwLevel = 1, oi_userId = 8\<rparr>,
     c_images = None\<rparr>"

text \<open>
  Items of user 8 for a call that shows hidden items: image 20 and model 1 are hidden by
  their ids only, image 24 carries the hidden tag 5, and image 25 has level 4.
\<close>

definition image2 :: image where
  "image2 = \<lparr>i_id = 20, i_userId = Some 8, i_user = None, i_tagIds = None, i_nsfwLevel = 1\<rparr>"

definition image3 :: image where
  "image3 = \<lparr>i_id = 24, i_userId = Some 8, i_user = None, i_tagIds = Some [5], i_nsfwLevel = 1\<rparr>"

definition image4 :: image where
  "image4 = \<lparr>i_id = 25, i_userId = Some 8, i_user = None, i_tagIds = None, i_nsfwLevel = 4\<rparr>"

definition model3 :: model where
  "model3 = \<lparr>m_id = 1, m_user = 8,
     m_images = Some [\<lparr>mi_id = 26, mi_tags = None, mi_nsfwLevel = 1, mi_userId = None\<rparr>],
     m_tags = None, m_nsfwLevel = 1, m_nsfw = False\<rparr>"

definition props3 :: props where
  "props3 = props0\<lparr>hiddenPreferences := prefs1, showHidden := True\<rparr>"

text \<open>
  An nsfw model under the mask 5 (PG and R): its first image has level 2, which the mask
  misses and the maximum selected level 4 admits, its second image has level 1.
\<close>

definition model4 :: model where
  "model4 = \<lparr>m_id = 27, m_user = 8,
     m_images = Some [\<lparr>mi_id = 30, mi_tags = None, mi_nsfwLevel = 2, mi_userId = None\<rparr>,
                      \<lparr>mi_id = 31, mi_tags = None, mi_nsfwLevel = 1, mi_userId = None\<rparr>],
     m_tags = None, m_nsfwLevel = 1, m_nsfw = True\<rparr>"

definition props4 :: props where
  "props4 = props0\<lparr>browsingLevel := 5\<rparr>"

text \<open>
  A post of user 8 with no array of images and the same post with an empty one; a tag of
  level 1 (PG) and a call with the mask 2 (PG13 only).
\<close>

definition post2 :: post where
  "post2 = post1\<lparr>p_images := Some []\<rparr>"









definition env0 :: hook_env where
  "env0 = \<lparr>e_currentUser = Some \<lparr>su_id = 7, su_isModerator = False\<rparr>,
     e_previous = Models (Some []), e_systemBrowsingLevel = 3, e_hiddenPreferences = prefs0\<rparr>"

definition args0 :: "typed_data \<Rightarrow> hook_args" where
  "args0 td = \<lparr>a_typed_data = td, a_showHidden = False, a_showImageless = True,
     a_disabled = False, a_isRefetching = False, a_hiddenImages = [], a_hiddenUsers = [],
     a_hiddenTags = [], a_browsingLevel = None, a_allowLowerLevels = False\<rparr>"

section \<open>Properties\<close>

subsection \<open>The two loops\<close>

lemma filter_st_fst:
  assumes "\<And>x h. fst (cb x h) = q x"
  shows "fst (filter_st cb xs h) = filter q xs"
proof (induction xs arbitrary: h)
  case Nil
  show ?case by simp
next
  case (Cons x xs)
  obtain k h1 where c: "cb x h = (k, h1)" by (cases "cb x h")
  obtain ys h2 where r: "filter_st cb xs h1 = (ys, h2)" by (cases "filter_st cb xs h1")
  from assms[of x h] c have k: "k = q x" by simp
  from Cons.IH[of h1] r have ys: "ys = filter q xs" by simp
  show ?case by (simp add: c r k ys)
qed

lemma filter_st_count:
  fixes f :: "hidden \<Rightarrow> nat"
  assumes "\<And>x h. f (snd (cb x h)) = f h + w x"
  shows "f (snd (filter_st cb xs h)) = f h + sum_list (map w xs)"
proof (induction xs arbitrary: h)
  case Nil
  show ?case by simp
next
  case (Cons x xs)
  obtain k h1 where c: "cb x h = (k, h1)" by (cases "cb x h")
  obtain ys h2 where r: "filter_st cb xs h1 = (ys, h2)" by (cases "filter_st cb xs h1")
  from assms[of x h] c have k: "f h1 = f h + w x" by simp
  from Cons.IH[of h1] r have ys: "f h2 = f h1 + sum_list (map w xs)" by simp
  show ?case by (simp add: c r k ys)
qed

lemma map_st_result:
  assumes "\<And>x h. cb x h = (if bad x then Inl E else Inr (g x, d x h))"
  shows "map_st cb xs h =
           (if \<exists>x\<in>set xs. bad x then Inl E
            else Inr (List.map_filter g xs, foldl (\<lambda>a x. d x a) h xs))"
proof (induction xs arbitrary: h)
  case Nil
  show ?case by simp
next
  case (Cons x xs)
  show ?case
  proof (cases "bad x")
    case True
    from True assms[of x h] have "cb x h = Inl E" by simp
    with True show ?thesis by simp
  next
    case False
    from False assms[of x h] have c: "cb x h = Inr (g x, d x h)" by simp
    note ih = Cons.IH[of "d x h"]
    show ?thesis
    proof (cases "\<exists>y\<in>set xs. bad y")
      case True
      with ih have "map_st cb xs (d x h) = Inl E" by simp
      with c True show ?thesis by simp
    next
      case nb: False
      with ih have "map_st cb xs (d x h) =
          Inr (List.map_filter g xs, foldl (\<lambda>a x. d x a) (d x h) xs)" by simp
      with c nb False show ?thesis
        by (simp split: option.splits)
    qed
  qed
qed

lemma foldl_count:
  fixes f :: "hidden \<Rightarrow> nat"
  assumes "\<And>x h. f (d x h) = f h + w x"
  shows "f (foldl (\<lambda>a x. d x a) h xs) = f h + sum_list (map w xs)"
  by (induction xs arbitrary: h) (simp_all add: assms)



lemma anyHidden_iff: "anyHidden m ts = (\<exists>t\<in>set ts. Map_get m t)"
  by (induction ts) auto


subsection \<open>The callbacks of filter: the answer does not depend on the tally\<close>

lemmas push_fst = if_distrib[where f = fst] option.case_distrib[where h = fst]

lemma modelsFilter_fst: "fst (modelsFilter p x h) = verdict (modelsFilter p) x"
  by (simp add: verdict_def modelsFilter_def Let_def push_fst split del: if_split cong: if_cong option.case_cong)

lemma imagesFilter_fst: "fst (imagesFilter p x h) = verdict (imagesFilter p) x"
  by (simp add: verdict_def imagesFilter_def Let_def push_fst split del: if_split cong: if_cong option.case_cong)

lemma articlesFilter_fst: "fst (articlesFilter p x h) = verdict (articlesFilter p) x"
  by (simp add: verdict_def articlesFilter_def Let_def push_fst split del: if_split cong: if_cong option.case_cong)

lemma usersFilter_fst: "fst (usersFilter p x h) = verdict (usersFilter p) x"
  by (simp add: verdict_def usersFilter_def Let_def push_fst split del: if_split cong: if_cong option.case_cong)

lemma collectionsFilter_fst: "fst (collectionsFilter p x h) = verdict (collectionsFilter p) x"
  by (simp add: verdict_def collectionsFilter_def Let_def push_fst split del: if_split cong: if_cong option.case_cong)

lemma bountiesFilter_fst: "fst (bountiesFilter p x h) = verdict (bountiesFilter p) x"
  by (simp add: verdict_def bountiesFilter_def Let_def push_fst split del: if_split cong: if_cong option.case_cong)

lemma postsFilter_fst: "fst (postsFilter p x h) = verdict (postsFilter p) x"
  by (simp add: verdict_def postsFilter_def Let_def push_fst split del: if_split cong: if_cong option.case_cong)

lemma tagsFilter_fst: "fst (tagsFilter p x h) = verdict (tagsFilter p) x"
  by (simp add: verdict_def tagsFilter_def Let_def push_fst split del: if_split cong: if_cong option.case_cong)

subsection \<open>The callbacks of map\<close>

lemma modelsMap_eq:
  "modelsMap p x h =
     (if False then Inl TypeError
      else Inr (mapped (modelsMap p) x, bump (models_sortedImages p x = []) h))"
  by (simp add: mapped_def modelsMap_def Let_def bump_def)

lemma collectionsMap_eq:
  "collectionsMap p x h =
     (if False then Inl TypeError
      else Inr (mapped (collectionsMap p) x, bump (collections_filteredImages p x = []) h))"
  by (simp add: mapped_def collectionsMap_def Let_def bump_def)

lemma bountiesMap_eq:
  "bountiesMap p x h =
     (if b_images x = None then Inl TypeError
      else Inr (mapped (bountiesMap p) x, bump (bounties_filteredImages p x = Some []) h))"
  by (cases "b_images x")
     (simp_all add: mapped_def bountiesMap_def bounties_filteredImages_def Let_def bump_def)

lemma postsMap_eq:
  "postsMap p x h =
     (if False then Inl TypeError
      else Inr (mapped (postsMap p) x,
                bump (\<exists>images. p_images x = Some images \<and> filter (postImageFilter p) images = []) h))"
  by (cases "p_images x") (simp_all add: mapped_def postsMap_def Let_def bump_def)

subsection \<open>The result of a call that enters the switch\<close>

lemma filterMap_result:
  assumes f: "\<And>x h. fst (cb x h) = verdict cb x"
    and g: "\<And>x h. mp x h = (if bad x then Inl E else Inr (g x, d x h))"
  shows "filterMap cb mp xs h =
           (if \<exists>x\<in>set (filter (verdict cb) xs). bad x then Inl E
            else Inr (List.map_filter g (filter (verdict cb) xs),
                      foldl (\<lambda>a x. d x a) (snd (filter_st cb xs h)) (filter (verdict cb) xs)))"
proof -
  obtain ys h1 where r: "filter_st cb xs h = (ys, h1)" by (cases "filter_st cb xs h")
  from filter_st_fst[of cb "verdict cb" xs h, OF f] r have ys: "ys = filter (verdict cb) xs"
    by simp
  have "filterMap cb mp xs h = map_st mp ys h1" by (simp add: filterMap_def r)
  also have "\<dots> = (if \<exists>x\<in>set ys. bad x then Inl E
                   else Inr (List.map_filter g ys, foldl (\<lambda>a x. d x a) h1 ys))"
    by (rule map_st_result[of mp bad E g d, OF g])
  finally show ?thesis unfolding ys r snd_conv .
qed

lemma filter_result:
  assumes f: "\<And>x h. fst (cb x h) = verdict cb x"
  shows "map_prod (C \<circ> Some) id (filter_st cb xs h) =
           (C (Some (filter (verdict cb) xs)), snd (filter_st cb xs h))"
proof -
  obtain ys h1 where r: "filter_st cb xs h = (ys, h1)" by (cases "filter_st cb xs h")
  from filter_st_fst[of cb "verdict cb" xs h, OF f] r have ys: "ys = filter (verdict cb) xs"
    by simp
  show ?thesis by (simp add: r ys)
qed

lemma images_result:
  assumes "\<not> shortCircuit (Images (Some xs)) p"
  shows "filterPreferences (Images (Some xs)) p =
           Inr (Images (Some (filter (verdict (imagesFilter p)) xs)),
                snd (filter_st (imagesFilter p) xs hidden0))"
  using assms
  by (simp add: filterPreferences_def shortCircuit_def orEmpty_def
      filter_result[OF imagesFilter_fst])

lemma models_result:
  assumes "\<not> shortCircuit (Models (Some xs)) p"
  shows "filterPreferences (Models (Some xs)) p =
           Inr (Models (Some (List.map_filter (mapped (modelsMap p))
                                (filter (verdict (modelsFilter p)) xs))),
                foldl (\<lambda>a x. bump (models_sortedImages p x = []) a)
                  (snd (filter_st (modelsFilter p) xs hidden0))
                  (filter (verdict (modelsFilter p)) xs))"
  using assms
  by (simp add: filterPreferences_def shortCircuit_def orEmpty_def
      filterMap_result[of "modelsFilter p" "modelsMap p" "\<lambda>x. False" TypeError,
        OF modelsFilter_fst modelsMap_eq])


lemma articles_result:
  assumes "\<not> shortCircuit (Articles (Some xs)) p"
  shows "filterPreferences (Articles (Some xs)) p =
           Inr (Articles (Some (filter (verdict (articlesFilter p)) xs)),
                snd (filter_st (articlesFilter p) xs hidden0))"
  using assms
  by (simp add: filterPreferences_def shortCircuit_def orEmpty_def
      filter_result[OF articlesFilter_fst])

lemma users_result:
  assumes "\<not> shortCircuit (Users (Some xs)) p"
  shows "filterPreferences (Users (Some xs)) p =
           Inr (Users (Some (filter (verdict (usersFilter p)) xs)),
                snd (filter_st (usersFilter p) xs hidden0))"
  using assms
  by (simp add: filterPreferences_def shortCircuit_def orEmpty_def
      filter_result[OF usersFilter_fst])

lemma tags_result:
  assumes "\<not> shortCircuit (Tags (Some xs)) p"
  shows "filterPreferences (Tags (Some xs)) p =
           Inr (Tags (Some (filter (verdict (tagsFilter p)) xs)),
                snd (filter_st (tagsFilter p) xs hidden0))"
  using assms
  by (simp add: filterPreferences_def shortCircuit_def orEmpty_def
      filter_result[OF tagsFilter_fst])

lemma collections_result:
  assumes "\<not> shortCircuit (Collections (Some xs)) p"
  shows "filterPreferences (Collections (Some xs)) p =
           Inr (Collections (Some (List.map_filter (mapped (collectionsMap p))
                                (filter (verdict (collectionsFilter p)) xs))),
                foldl (\<lambda>a x. bump (collections_filteredImages p x = []) a)
                  (snd (filter_st (collectionsFilter p) xs hidden0))
                  (filter (verdict (collectionsFilter p)) xs))"
  using assms
  by (simp add: filterPreferences_def shortCircuit_def orEmpty_def
      filterMap_result[of "collectionsFilter p" "collectionsMap p" "\<lambda>x. False" TypeError,
        OF collectionsFilter_fst collectionsMap_eq])

lemma posts_result:
  assumes "\<not> shortCircuit (Posts (Some xs)) p"
  shows "filterPreferences (Posts (Some xs)) p =
           Inr (Posts (Some (List.map_filter (mapped (postsMap p))
                                (filter (verdict (postsFilter p)) xs))),
                foldl (\<lambda>a x. bump (\<exists>images. p_images x = Some images \<and>
                                      filter (postImageFilter p) images = []) a)
                  (snd (filter_st (postsFilter p) xs hidden0))
                  (filter (verdict (postsFilter p)) xs))"
  using assms
  by (simp add: filterPreferences_def shortCircuit_def orEmpty_def
      filterMap_result[of "postsFilter p" "postsMap p" "\<lambda>x. False" TypeError,
        OF postsFilter_fst postsMap_eq])

lemma bounties_result:
  assumes "\<not> shortCircuit (Bounties (Some xs)) p"
  shows "filterPreferences (Bounties (Some xs)) p =
           (if \<exists>x\<in>set (filter (verdict (bountiesFilter p)) xs). b_images x = None
              then Inl TypeError
            else Inr (Bounties (Some (List.map_filter (mapped (bountiesMap p))
                                (filter (verdict (bountiesFilter p)) xs))),
                foldl (\<lambda>a x. bump (bounties_filteredImages p x = Some []) a)
                  (snd (filter_st (bountiesFilter p) xs hidden0))
                  (filter (verdict (bountiesFilter p)) xs)))"
  using assms
  by (simp add: filterPreferences_def shortCircuit_def orEmpty_def
      filterMap_result[of "bountiesFilter p" "bountiesMap p" "\<lambda>x. b_images x = None" TypeError,
        OF bountiesFilter_fst bountiesMap_eq] del: set_filter)

subsection \<open>The counter unprocessed\<close>

lemma bump_unprocessed: "h_unprocessed (bump c h) = h_unprocessed h"
  by (simp add: bump_def)

lemma modelsFilter_unprocessed: "h_unprocessed (snd (modelsFilter p x h)) = h_unprocessed h + 0"
  by (simp add: modelsFilter_def Let_def)

lemma imagesFilter_unprocessed: "h_unprocessed (snd (imagesFilter p x h)) = h_unprocessed h + 0"
  by (simp add: imagesFilter_def Let_def)

lemma articlesFilter_unprocessed: "h_unprocessed (snd (articlesFilter p x h)) = h_unprocessed h + 0"
  by (simp add: articlesFilter_def Let_def split: option.splits)

lemma usersFilter_unprocessed: "h_unprocessed (snd (usersFilter p x h)) = h_unprocessed h + 0"
  by (simp add: usersFilter_def Let_def)

lemma collectionsFilter_unprocessed:
  "h_unprocessed (snd (collectionsFilter p x h)) = h_unprocessed h + 0"
  by (simp add: collectionsFilter_def Let_def split: option.splits)

lemma bountiesFilter_unprocessed: "h_unprocessed (snd (bountiesFilter p x h)) = h_unprocessed h + 0"
  by (simp add: bountiesFilter_def Let_def)

lemma postsFilter_unprocessed: "h_unprocessed (snd (postsFilter p x h)) = h_unprocessed h + 0"
  by (simp add: postsFilter_def Let_def)

lemma tagsFilter_unprocessed: "h_unprocessed (snd (tagsFilter p x h)) = h_unprocessed h + 0"
  by (simp add: tagsFilter_def Let_def)

lemma foldl_bump_unprocessed:
  "h_unprocessed (foldl (\<lambda>a x. bump (c x) a) h xs) = h_unprocessed h"
  using foldl_count[of h_unprocessed "\<lambda>x. bump (c x)" "\<lambda>x. 0" h xs]
  by (simp add: bump_unprocessed)

lemma filter_st_unprocessed:
  assumes "\<And>x h. h_unprocessed (snd (cb x h)) = h_unprocessed h + 0"
  shows "h_unprocessed (snd (filter_st cb xs hidden0)) = 0"
  using filter_st_count[of h_unprocessed cb "\<lambda>x. 0" xs hidden0, OF assms]
  by (simp add: hidden0_def)

lemma shortCircuit_result:
  "shortCircuit td p \<Longrightarrow> filterPreferences td p = Inr (noItems td, hidden0)"
  by (simp add: filterPreferences_def shortCircuit_def)


lemma present_cases [consumes 1, case_names Models Images Articles Users Collections Bounties Posts Tags Unhandled]:
  assumes "\<not> dataAbsent td"
  obtains xs where "td = Models (Some xs)" | xs where "td = Images (Some xs)"
    | xs where "td = Articles (Some xs)" | xs where "td = Users (Some xs)"
    | xs where "td = Collections (Some xs)" | xs where "td = Bounties (Some xs)"
    | xs where "td = Posts (Some xs)" | xs where "td = Tags (Some xs)"
    | k where "td = Unhandled k True"
  using assms by (cases td) auto

lemma unprocessed_zero:
  assumes "filterPreferences td p = Inr (its, hid)"
  shows "h_unprocessed hid = 0"
proof (cases "shortCircuit td p")
  case True
  with assms shortCircuit_result[OF True] show ?thesis by (auto simp: hidden0_def)
next
  case False
  then have "\<not> dataAbsent td" by (simp add: shortCircuit_def)
  then show ?thesis
  proof (cases rule: present_cases)
    case (Models xs)
    with assms False models_result[of xs p] show ?thesis
      by (auto simp: foldl_bump_unprocessed filter_st_unprocessed[OF modelsFilter_unprocessed])
  next
    case (Images xs)
    with assms False images_result[of xs p] show ?thesis
      by (auto simp: filter_st_unprocessed[OF imagesFilter_unprocessed])
  next
    case (Articles xs)
    with assms False articles_result[of xs p] show ?thesis
      by (auto simp: filter_st_unprocessed[OF articlesFilter_unprocessed])
  next
    case (Users xs)
    with assms False users_result[of xs p] show ?thesis
      by (auto simp: filter_st_unprocessed[OF usersFilter_unprocessed])
  next
    case (Collections xs)
    with assms False collections_result[of xs p] show ?thesis
      by (auto simp: foldl_bump_unprocessed filter_st_unprocessed[OF collectionsFilter_unprocessed])
  next
    case (Bounties xs)
    with assms False bounties_result[of xs p] show ?thesis
      by (auto simp: foldl_bump_unprocessed filter_st_unprocessed[OF bountiesFilter_unprocessed]
          split: if_splits)
  next
    case (Posts xs)
    with assms False posts_result[of xs p] show ?thesis
      by (auto simp: foldl_bump_unprocessed filter_st_unprocessed[OF postsFilter_unprocessed])
  next
    case (Tags xs)
    with assms False tags_result[of xs p] show ?thesis
      by (auto simp: filter_st_unprocessed[OF tagsFilter_unprocessed])
  next
    case (Unhandled k)
    with assms False show ?thesis
      by (simp add: filterPreferences_def shortCircuit_def)
  qed
qed

text \<open>A handled key never raises the error of the default case; all but bounties return.\<close>

lemma handled_returns:
  assumes "handledKey td"
  shows "filterPreferences td p \<noteq> Inl UnhandledType"
    and "(\<forall>d. td \<noteq> Bounties d) \<Longrightarrow> \<exists>r. filterPreferences td p = Inr r"
proof -
  have "filterPreferences td p \<noteq> Inl UnhandledType
        \<and> ((\<forall>d. td \<noteq> Bounties d) \<longrightarrow> (\<exists>r. filterPreferences td p = Inr r))"
  proof (cases "shortCircuit td p")
    case True
    then show ?thesis by (simp add: shortCircuit_result)
  next
    case False
    then have "\<not> dataAbsent td" by (simp add: shortCircuit_def)
    then show ?thesis
    proof (cases rule: present_cases)
      case (Models xs)
      with False models_result[of xs p] show ?thesis by simp
    next
      case (Images xs)
      with False images_result[of xs p] show ?thesis by simp
    next
      case (Articles xs)
      with False articles_result[of xs p] show ?thesis by simp
    next
      case (Users xs)
      with False users_result[of xs p] show ?thesis by simp
    next
      case (Collections xs)
      with False collections_result[of xs p] show ?thesis by simp
    next
      case (Bounties xs)
      with False bounties_result[of xs p] show ?thesis by simp
    next
      case (Posts xs)
      with False posts_result[of xs p] show ?thesis by simp
    next
      case (Tags xs)
      with False tags_result[of xs p] show ?thesis by simp
    next
      case (Unhandled k)
      with assms show ?thesis by simp
    qed
  qed
  then show "filterPreferences td p \<noteq> Inl UnhandledType"
    and "(\<forall>d. td \<noteq> Bounties d) \<Longrightarrow> \<exists>r. filterPreferences td p = Inr r"
    by simp_all
qed

subsection \<open>What the callbacks answer\<close>

lemma verdict_models:
  "verdict (modelsFilter p) x =
     (models_exempt p x \<or>
      Flags_intersects (m_nsfwLevel x) (browsingLevel p)
      \<and> \<not> (m_user x \<noteq> 0 \<and> Map_get (hiddenUsers (hiddenPreferences p)) (m_user x))
      \<and> \<not> (Map_get (hiddenModels (hiddenPreferences p)) (m_id x) \<and> \<not> showHidden p)
      \<and> \<not> anyHidden (hiddenTags (hiddenPreferences p)) (orEmpty (m_tags x)))"
  by (auto simp: verdict_def modelsFilter_def models_exempt_def Let_def)

lemma verdict_images:
  "verdict (imagesFilter p) x =
     (images_exempt p x \<or>
      (if allowLowerLevels p then \<not> exceeds (i_nsfwLevel x) (maxBrowsingLevel p)
       else Flags_intersects (i_nsfwLevel x) (browsingLevel p))
      \<and> \<not> (truthy (orElse (i_userId x) (i_user x))
            \<and> Map_get (hiddenUsers (hiddenPreferences p)) (the (orElse (i_userId x) (i_user x))))
      \<and> \<not> (Map_get (hiddenImages (hiddenPreferences p)) (i_id x) \<and> \<not> showHidden p)
      \<and> \<not> anyHidden (hiddenTags (hiddenPreferences p)) (orEmpty (i_tagIds x)))"
  by (auto simp: verdict_def imagesFilter_def images_exempt_def Let_def)

lemma verdict_articles:
  "verdict (articlesFilter p) x =
     (articles_exempt p x \<or>
      Flags_intersects (a_nsfwLevel x) (browsingLevel p)
      \<and> \<not> Map_get (hiddenUsers (hiddenPreferences p)) (a_user x)
      \<and> \<not> anyHidden (hiddenTags (hiddenPreferences p)) (orEmpty (a_tags x))
      \<and> (\<forall>c. a_coverImage x = Some c \<longrightarrow>
            \<not> Map_get (hiddenImages (hiddenPreferences p)) (ci_id c)
            \<and> \<not> anyHidden (hiddenTags (hiddenPreferences p)) (ci_tags c)))"
  by (cases "a_coverImage x")
     (auto simp: verdict_def articlesFilter_def articles_exempt_def Let_def)

lemma verdict_users:
  "verdict (usersFilter p) x =
     (Some (u_id x) = currentUserId p \<or> \<not> Map_get (hiddenUsers (hiddenPreferences p)) (u_id x))"
  by (auto simp: verdict_def usersFilter_def)

lemma verdict_collections:
  "verdict (collectionsFilter p) x =
     (collections_exempt p x \<or>
      Flags_intersects (c_nsfwLevel x) (browsingLevel p)
      \<and> \<not> (truthy (orElse (c_userId x) (c_user x))
            \<and> Map_get (hiddenUsers (hiddenPreferences p)) (the (orElse (c_userId x) (c_user x))))
      \<and> (\<forall>img. c_image x = Some img \<longrightarrow>
            \<not> Map_get (hiddenImages (hiddenPreferences p)) (oi_id img)))"
  by (cases "c_image x")
     (auto simp: verdict_def collectionsFilter_def collections_exempt_def Let_def)

lemma verdict_bounties:
  "verdict (bountiesFilter p) x =
     (bounties_exempt p x \<or>
      Flags_intersects (b_nsfwLevel x) (browsingLevel p)
      \<and> \<not> Map_get (hiddenUsers (hiddenPreferences p)) (b_user x)
      \<and> \<not> anyHidden (hiddenImages (hiddenPreferences p)) (map oi_id (orEmpty (b_images x)))
      \<and> \<not> anyHidden (hiddenTags (hiddenPreferences p)) (orEmpty (b_tags x)))"
  by (auto simp: verdict_def bountiesFilter_def bounties_exempt_def Let_def)

lemma verdict_posts:
  "verdict (postsFilter p) x =
     (posts_exempt p x \<or>
      Flags_intersects (p_nsfwLevel x) (browsingLevel p)
      \<and> \<not> (truthy (orElse (p_userId x) (p_user x))
            \<and> Map_get (hiddenUsers (hiddenPreferences p)) (the (orElse (p_userId x) (p_user x)))))"
  by (auto simp: verdict_def postsFilter_def posts_exempt_def Let_def)


subsection \<open>What the callbacks of map return\<close>

lemma mapped_models:
  "mapped (modelsMap p) x =
     (if models_sortedImages p x \<noteq> [] \<or> showImageless p
        then Some (x\<lparr>m_images := Some (models_sortedImages p x)\<rparr>) else None)"
  by (simp add: mapped_def modelsMap_def Let_def)

lemma mapped_collections:
  "mapped (collectionsMap p) x =
     (if collections_filteredImages p x \<noteq> [] \<or> showImageless p
        then Some (x\<lparr>c_image := None, c_images := Some (collections_filteredImages p x)\<rparr>)
      else None)"
  by (simp add: mapped_def collectionsMap_def Let_def)

lemma mapped_bounties:
  "mapped (bountiesMap p) x =
     (case bounties_filteredImages p x of
        None \<Rightarrow> None
      | Some fi \<Rightarrow> if fi \<noteq> [] then Some (x\<lparr>b_images := Some fi\<rparr>) else None)"
  by (simp add: mapped_def bountiesMap_def Let_def split: option.splits)

lemma mapped_posts:
  "mapped (postsMap p) x =
     (case p_images x of
        None \<Rightarrow> Some x
      | Some images \<Rightarrow>
          if filter (postImageFilter p) images \<noteq> [] \<or> showImageless p
            then Some (x\<lparr>p_images := Some (filter (postImageFilter p) images)\<rparr>) else None)"
  by (simp add: mapped_def postsMap_def Let_def split: option.splits)

lemma set_map_filter':
  "set (List.map_filter g xs) = {y. \<exists>x\<in>set xs. g x = Some y}"
  by (induction xs) (auto split: option.splits)

subsection \<open>Where an item of the output comes from\<close>

lemma images_member:
  assumes "filterPreferences (Images (Some xs)) p = Inr (Images (Some out), h)" "y \<in> set out"
  shows "y \<in> set xs \<and> verdict (imagesFilter p) y"
proof (cases "shortCircuit (Images (Some xs)) p")
  case True
  with assms shortCircuit_result[OF True] show ?thesis by simp
next
  case False
  with assms images_result[OF False] show ?thesis by auto
qed


lemma models_member:
  assumes "filterPreferences (Models (Some xs)) p = Inr (Models (Some out), h)" "y \<in> set out"
  shows "\<exists>x\<in>set xs. verdict (modelsFilter p) x \<and> mapped (modelsMap p) x = Some y"
proof (cases "shortCircuit (Models (Some xs)) p")
  case True
  with assms shortCircuit_result[OF True] show ?thesis by simp
next
  case False
  with assms models_result[OF False] show ?thesis by (auto simp: set_map_filter')
qed





subsection \<open>Counting\<close>




































text \<open>
  The loop over the tags of the featured image of a collection has no \<open>return\<close>: the
  collection of user 8 adds to the counter images in the callback of \<open>filter\<close>, then loses
  its only image in the callback of \<open>map\<close> and is dropped under the counter noImages.
\<close>

lemma featured_tag_counted_twice:
  "filterPreferences (Collections (Some [collection2])) (props0\<lparr>hiddenPreferences := prefs1\<rparr>)
     = Inr (Collections (Some []), hidden0\<lparr>h_images := 1, h_noImages := 1\<rparr>)"
  by code_simp


subsection \<open>showHidden\<close>

lemma modelsFilter_showHidden:
  "modelsFilter (p\<lparr>showHidden := True\<rparr>)
     = modelsFilter (p\<lparr>showHidden := sh,
         hiddenPreferences := (hiddenPreferences p)\<lparr>hiddenModels := Map.empty\<rparr>\<rparr>)"
  by (intro ext)
     (simp add: modelsFilter_def Let_def Map_get_def currentUserId_def isModerator_def
        split del: if_split cong: if_cong)

lemma modelImageFilter_showHidden:
  "modelImageFilter (p\<lparr>showHidden := True\<rparr>)
     = modelImageFilter (p\<lparr>showHidden := sh,
         hiddenPreferences := (hiddenPreferences p)\<lparr>hiddenModels := Map.empty\<rparr>\<rparr>)"
  by (intro ext)
     (simp add: modelImageFilter_def maxSelectedLevel_def Let_def currentUserId_def
        isModerator_def split del: if_split cong: if_cong)

lemma sortRank_showHidden:
  "sortRank (p\<lparr>showHidden := True\<rparr>)
     = sortRank (p\<lparr>showHidden := sh,
         hiddenPreferences := (hiddenPreferences p)\<lparr>hiddenModels := Map.empty\<rparr>\<rparr>)"
  by (intro ext) (simp add: sortRank_def)

lemma modelsMap_showHidden:
  "modelsMap (p\<lparr>showHidden := True\<rparr>)
     = modelsMap (p\<lparr>showHidden := sh,
         hiddenPreferences := (hiddenPreferences p)\<lparr>hiddenModels := Map.empty\<rparr>\<rparr>)"
proof (intro ext)
  fix x h
  have "models_sortedImages (p\<lparr>showHidden := True\<rparr>) x
      = models_sortedImages (p\<lparr>showHidden := sh,
         hiddenPreferences := (hiddenPreferences p)\<lparr>hiddenModels := Map.empty\<rparr>\<rparr>) x"
    unfolding models_sortedImages_def models_filteredImages_def
      modelImageFilter_showHidden[of p sh] sortRank_showHidden[of p sh] ..
  then show "modelsMap (p\<lparr>showHidden := True\<rparr>) x h
     = modelsMap (p\<lparr>showHidden := sh,
         hiddenPreferences := (hiddenPreferences p)\<lparr>hiddenModels := Map.empty\<rparr>\<rparr>) x h"
    by (simp add: modelsMap_def)
qed

lemma imagesFilter_showHidden:
  "imagesFilter (p\<lparr>showHidden := True\<rparr>)
     = imagesFilter (p\<lparr>showHidden := sh,
         hiddenPreferences := (hiddenPreferences p)\<lparr>hiddenImages := Map.empty\<rparr>\<rparr>)"
  by (intro ext)
     (simp add: imagesFilter_def Let_def Map_get_def currentUserId_def isModerator_def
        maxBrowsingLevel_def split del: if_split cong: if_cong)


subsection \<open>Order\<close>













subsection \<open>Filtering the output again\<close>

lemma map_filter_fix:
  assumes "\<And>y. y \<in> set ys \<Longrightarrow> v y \<and> g y = Some y"
  shows "List.map_filter g (filter v ys) = ys"
  using assms by (induction ys) simp_all

lemma models_sortedImages_fix:
  "models_sortedImages p (x\<lparr>m_images := Some (models_sortedImages p x)\<rparr>)
     = models_sortedImages p x"
proof -
  let ?fi = "models_filteredImages p x"
  let ?s = "models_sortedImages p x"
  have all: "\<forall>a\<in>set ?fi. modelImageFilter p (m_nsfw x) a"
    by (cases "m_images x") (simp_all add: models_filteredImages_def)
  have "set ?s = set ?fi" by (simp add: models_sortedImages_def)
  with all have "filter (modelImageFilter p (m_nsfw x)) ?s = ?s" by simp
  then have fi: "models_filteredImages p (x\<lparr>m_images := Some ?s\<rparr>) = ?s"
    by (simp add: models_filteredImages_def)
  show ?thesis
  proof (cases "m_nsfw x")
    case True
    then have s: "?s = sort_key (sortRank p) ?fi" by (simp add: models_sortedImages_def)
    have "sort_key (sortRank p) ?s = ?s"
      unfolding s by (rule sort_key_id_if_sorted) (rule sorted_sort_key)
    with True fi show ?thesis by (simp add: models_sortedImages_def[of p "x\<lparr>m_images := Some ?s\<rparr>"])
  next
    case False
    with fi show ?thesis by (simp add: models_sortedImages_def[of p "x\<lparr>m_images := Some ?s\<rparr>"])
  qed
qed

lemma models_fix:
  assumes "verdict (modelsFilter p) x" "mapped (modelsMap p) x = Some y"
  shows "verdict (modelsFilter p) y \<and> mapped (modelsMap p) y = Some y"
proof -
  from assms(2) have y: "y = x\<lparr>m_images := Some (models_sortedImages p x)\<rparr>"
    and k: "models_sortedImages p x \<noteq> [] \<or> showImageless p"
    by (auto simp: mapped_models split: if_splits)
  from assms(1) have "verdict (modelsFilter p) y"
    by (simp add: y verdict_models models_exempt_def)
  moreover from k have "mapped (modelsMap p) y = Some y"
    unfolding y mapped_models models_sortedImages_fix by simp
  ultimately show ?thesis by simp
qed

lemma collections_fix:
  assumes "verdict (collectionsFilter p) x" "mapped (collectionsMap p) x = Some y"
  shows "verdict (collectionsFilter p) y \<and> mapped (collectionsMap p) y = Some y"
proof -
  let ?fi = "collections_filteredImages p x"
  from assms(2) have y: "y = x\<lparr>c_image := None, c_images := Some ?fi\<rparr>"
    and k: "?fi \<noteq> [] \<or> showImageless p"
    by (auto simp: mapped_collections split: if_splits)
  have "\<forall>a\<in>set ?fi. ownedImageFilter p a"
    by (simp add: collections_filteredImages_def Let_def)
  then have "filter (ownedImageFilter p) ?fi = ?fi" by simp
  then have fi: "collections_filteredImages p y = ?fi"
    by (simp add: y collections_filteredImages_def[of p "x\<lparr>c_image := None, c_images := Some ?fi\<rparr>"]
        orEmpty_def)
  from assms(1) have "verdict (collectionsFilter p) y"
    by (auto simp: y verdict_collections collections_exempt_def)
  moreover from k fi have "mapped (collectionsMap p) y = Some y"
    by (simp add: mapped_collections[of p y]) (simp add: y)
  ultimately show ?thesis by simp
qed

lemma bounties_fix:
  assumes "verdict (bountiesFilter p) x" "mapped (bountiesMap p) x = Some y"
  shows "verdict (bountiesFilter p) y \<and> mapped (bountiesMap p) y = Some y \<and> b_images y \<noteq> None"
proof -
  from assms(2) obtain imgs where i: "b_images x = Some imgs"
    and y: "y = x\<lparr>b_images := Some (filter (ownedImageFilter p) imgs)\<rparr>"
    and k: "filter (ownedImageFilter p) imgs \<noteq> []"
    by (auto simp: mapped_bounties bounties_filteredImages_def split: if_splits option.splits)
  from assms(1) have "verdict (bountiesFilter p) y"
    by (auto simp: y i verdict_bounties bounties_exempt_def anyHidden_iff orEmpty_def)
  moreover from k have "mapped (bountiesMap p) y = Some y"
    by (simp add: y mapped_bounties bounties_filteredImages_def)
  ultimately show ?thesis by (simp add: y)
qed

lemma posts_fix:
  assumes "verdict (postsFilter p) x" "mapped (postsMap p) x = Some y"
  shows "verdict (postsFilter p) y \<and> mapped (postsMap p) y = Some y"
proof (cases "p_images x")
  case None
  with assms show ?thesis by (simp add: mapped_posts)
next
  case (Some imgs)
  with assms(2) have y: "y = x\<lparr>p_images := Some (filter (postImageFilter p) imgs)\<rparr>"
    and k: "filter (postImageFilter p) imgs \<noteq> [] \<or> showImageless p"
    by (auto simp: mapped_posts split: if_splits)
  from assms(1) have "verdict (postsFilter p) y"
    by (simp add: y verdict_posts posts_exempt_def)
  moreover from k have "mapped (postsMap p) y = Some y"
    by (auto simp: y mapped_posts)
  ultimately show ?thesis by simp
qed

lemma noItems_again:
  assumes "handledKey td"
  shows "\<exists>hid'. filterPreferences (noItems td) p = Inr (noItems td, hid')"
  using assms
  by (cases td) (simp_all add: filterPreferences_def filterMap_def orEmpty_def)

lemma parent_again:
  assumes out: "out = List.map_filter g (filter v xs)"
    and fx: "\<And>x y. v x \<Longrightarrow> g x = Some y \<Longrightarrow> v y \<and> g y = Some y"
  shows "List.map_filter g (filter v out) = out"
proof (rule map_filter_fix)
  fix y assume "y \<in> set out"
  then obtain x where "x \<in> set xs" "v x" "g x = Some y"
    unfolding out set_map_filter' by auto
  with fx show "v y \<and> g y = Some y" by blast
qed

subsection \<open>Data of the declared types\<close>

lemma typed_returns:
  assumes "handledKey td" "imagesPresent td"
  shows "\<exists>r. filterPreferences td p = Inr r"
proof (cases "shortCircuit td p")
  case True
  then show ?thesis by (simp add: shortCircuit_result)
next
  case False
  then have "\<not> dataAbsent td" by (simp add: shortCircuit_def)
  then show ?thesis
  proof (cases rule: present_cases)
    case (Bounties xs)
    with assms(2) have "\<not> (\<exists>x\<in>set (filter (verdict (bountiesFilter p)) xs). b_images x = None)"
      by (auto simp: orEmpty_def)
    with False Bounties bounties_result[of xs p] show ?thesis by (simp del: set_filter)
  next
    case (Unhandled k)
    with assms(1) show ?thesis by simp
  qed (use handled_returns(2)[OF assms(1), of p] in auto)
qed

text \<open>
  The owner test of the image of a post has no guard on the owner: for a viewer who is not
  logged in, an image with no owner and level 0 is kept whatever is hidden.
\<close>

lemma ownerless_post_image_kept:
  assumes "currentUser p = None" "i_nsfwLevel x = 0"
  shows "postImageFilter p (x\<lparr>i_userId := None, i_user := None\<rparr>)"
  using assms by (simp add: postImageFilter_def orElse_def currentUserId_def Let_def)

subsection \<open>The nested images of the output\<close>









subsection \<open>The order of the nested images\<close>





section \<open>The claims\<close>

text \<open>
  C5, as stated, fails twice. A bounty with no \<open>images\<close> field, which the declared type
  \<open>BaseBounty\<close> excludes, passes the callback of \<open>filter\<close>; the callback of \<open>map\<close> then
  reads \<open>filteredImages.length\<close> of \<open>undefined\<close>, and the call throws. A post with no
  \<open>images\<close> field, which \<open>BasePost\<close> allows, is not treated as a post with an empty array:
  it is returned as it is, while the same post with the empty array is dropped and counted
  under noImages.
\<close>

theorem absent_fields_counterexample:
  "filterPreferences
     (Bounties (Some [\<lparr>b_id = 1, b_user = 2, b_tags = None, b_nsfwLevel = 1, b_nsfw = False,
                       b_images = None\<rparr>])) props0 = Inl TypeError
   \<and> p_images post1 = None
   \<and> filterPreferences (Posts (Some [post1])) props0 = Inr (Posts (Some [post1]), hidden0)
   \<and> filterPreferences (Posts (Some [post1\<lparr>p_images := Some []\<rparr>])) props0
       = Inr (Posts (Some []), hidden0\<lparr>h_noImages := 1\<rparr>)"
  by code_simp

text \<open>
  C5 (amended). On data of the declared types, where every bounty carries its array of
  images, a call for one of the eight content types returns a result. An absent array of
  tags of a model, an image of a model, an image, an article, a bounty, a nested image or
  the featured image of a collection is read as the empty array. Absent images of a model
  or of a collection are read as the empty array by the callback of \<open>map\<close>, and absent
  images of a bounty by the callback of \<open>filter\<close>. A post with no array of images is
  returned as it is. An image, a collection or a post with no owner, and an image of a
  model with no owner, is judged with the owner test false and without the test of the
  hidden users: it is kept exactly when the viewer is a moderator and the level is 0, or
  when the remaining rules of its callback keep it. The same holds for an image of a post
  with no owner when the viewer is logged in.
\<close>

theorem absent_fields:
  "(handledKey td \<and> imagesPresent td \<longrightarrow> (\<exists>r. filterPreferences td p = Inr r))
   \<and> modelsFilter p (m\<lparr>m_tags := None\<rparr>) = modelsFilter p (m\<lparr>m_tags := Some []\<rparr>)
   \<and> modelImageFilter p n (mi\<lparr>mi_tags := None\<rparr>) = modelImageFilter p n (mi\<lparr>mi_tags := Some []\<rparr>)
   \<and> imagesFilter p (x\<lparr>i_tagIds := None\<rparr>) = imagesFilter p (x\<lparr>i_tagIds := Some []\<rparr>)
   \<and> articlesFilter p (a\<lparr>a_tags := None\<rparr>) = articlesFilter p (a\<lparr>a_tags := Some []\<rparr>)
   \<and> bountiesFilter p (b\<lparr>b_tags := None\<rparr>) = bountiesFilter p (b\<lparr>b_tags := Some []\<rparr>)
   \<and> ownedImageFilter p (oi\<lparr>oi_tagIds := None\<rparr>) = ownedImageFilter p (oi\<lparr>oi_tagIds := Some []\<rparr>)
   \<and> postImageFilter p (x\<lparr>i_tagIds := None\<rparr>) = postImageFilter p (x\<lparr>i_tagIds := Some []\<rparr>)
   \<and> collectionsFilter p (c\<lparr>c_image := Some (oi\<lparr>oi_tagIds := None\<rparr>)\<rparr>)
       = collectionsFilter p (c\<lparr>c_image := Some (oi\<lparr>oi_tagIds := Some []\<rparr>)\<rparr>)
   \<and> modelsMap p (m\<lparr>m_images := None\<rparr>) = modelsMap p (m\<lparr>m_images := Some []\<rparr>)
   \<and> collectionsMap p (c\<lparr>c_images := None\<rparr>) = collectionsMap p (c\<lparr>c_images := Some []\<rparr>)
   \<and> bountiesFilter p (b\<lparr>b_images := None\<rparr>) = bountiesFilter p (b\<lparr>b_images := Some []\<rparr>)
   \<and> postsMap p (q\<lparr>p_images := None\<rparr>) h = Inr (Some (q\<lparr>p_images := None\<rparr>), h)
   \<and> verdict (imagesFilter p) (x\<lparr>i_userId := None, i_user := None\<rparr>)
       = (isModerator p \<and> i_nsfwLevel x = 0
          \<or> (if allowLowerLevels p then \<not> exceeds (i_nsfwLevel x) (maxBrowsingLevel p)
              else Flags_intersects (i_nsfwLevel x) (browsingLevel p))
            \<and> \<not> (Map_get (hiddenImages (hiddenPreferences p)) (i_id x) \<and> \<not> showHidden p)
            \<and> \<not> anyHidden (hiddenTags (hiddenPreferences p)) (orEmpty (i_tagIds x)))
   \<and> verdict (collectionsFilter p) (c\<lparr>c_userId := None, c_user := None\<rparr>)
       = (isModerator p \<and> c_nsfwLevel c = 0
          \<or> Flags_intersects (c_nsfwLevel c) (browsingLevel p)
            \<and> (\<forall>img. c_image c = Some img \<longrightarrow>
                  \<not> Map_get (hiddenImages (hiddenPreferences p)) (oi_id img)))
   \<and> verdict (postsFilter p) (q\<lparr>p_userId := None, p_user := None\<rparr>)
       = (isModerator p \<and> p_nsfwLevel q = 0
          \<or> Flags_intersects (p_nsfwLevel q) (browsingLevel p))
   \<and> modelImageFilter p n (mi\<lparr>mi_userId := None\<rparr>)
       = (isModerator p \<and> mi_nsfwLevel mi = 0
          \<or> (if n then \<not> exceeds (mi_nsfwLevel mi) (maxSelectedLevel p)
              else Flags_intersects (mi_nsfwLevel mi) (browsingLevel p))
            \<and> \<not> Map_get (hiddenImages (hiddenPreferences p)) (mi_id mi)
            \<and> \<not> anyHidden (hiddenTags (hiddenPreferences p)) (orEmpty (mi_tags mi)))
   \<and> (currentUser p \<noteq> None
       \<longrightarrow> postImageFilter p (x\<lparr>i_userId := None, i_user := None\<rparr>)
           = (isModerator p \<and> i_nsfwLevel x = 0
              \<or> Flags_intersects (i_nsfwLevel x) (browsingLevel p)
                \<and> \<not> Map_get (hiddenImages (hiddenPreferences p)) (i_id x)
                \<and> \<not> anyHidden (hiddenTags (hiddenPreferences p)) (orEmpty (i_tagIds x))))"
proof -
  have r: "handledKey td \<and> imagesPresent td \<longrightarrow> (\<exists>r. filterPreferences td p = Inr r)"
    using typed_returns[of td p] by blast
  have t1: "modelsFilter p (m\<lparr>m_tags := None\<rparr>) = modelsFilter p (m\<lparr>m_tags := Some []\<rparr>)"
    by (intro ext) (simp add: modelsFilter_def orEmpty_def Let_def split del: if_split cong: if_cong option.case_cong)
  have t2: "modelImageFilter p n (mi\<lparr>mi_tags := None\<rparr>)
      = modelImageFilter p n (mi\<lparr>mi_tags := Some []\<rparr>)"
    by (simp add: modelImageFilter_def orEmpty_def Let_def split del: if_split cong: if_cong option.case_cong)
  have t3: "imagesFilter p (x\<lparr>i_tagIds := None\<rparr>) = imagesFilter p (x\<lparr>i_tagIds := Some []\<rparr>)"
    by (intro ext) (simp add: imagesFilter_def orEmpty_def Let_def split del: if_split cong: if_cong option.case_cong)
  have t4: "articlesFilter p (a\<lparr>a_tags := None\<rparr>) = articlesFilter p (a\<lparr>a_tags := Some []\<rparr>)"
    by (intro ext) (simp add: articlesFilter_def orEmpty_def Let_def split del: if_split cong: if_cong option.case_cong)
  have t5: "bountiesFilter p (b\<lparr>b_tags := None\<rparr>) = bountiesFilter p (b\<lparr>b_tags := Some []\<rparr>)"
    by (intro ext) (simp add: bountiesFilter_def orEmpty_def Let_def split del: if_split cong: if_cong option.case_cong)
  have t6: "ownedImageFilter p (oi\<lparr>oi_tagIds := None\<rparr>)
      = ownedImageFilter p (oi\<lparr>oi_tagIds := Some []\<rparr>)"
    by (simp add: ownedImageFilter_def orEmpty_def Let_def split del: if_split cong: if_cong option.case_cong)
  have t7: "postImageFilter p (x\<lparr>i_tagIds := None\<rparr>) = postImageFilter p (x\<lparr>i_tagIds := Some []\<rparr>)"
    by (simp add: postImageFilter_def orEmpty_def Let_def split del: if_split cong: if_cong option.case_cong)
  have t8: "collectionsFilter p (c\<lparr>c_image := Some (oi\<lparr>oi_tagIds := None\<rparr>)\<rparr>)
       = collectionsFilter p (c\<lparr>c_image := Some (oi\<lparr>oi_tagIds := Some []\<rparr>)\<rparr>)"
    by (intro ext) (simp add: collectionsFilter_def orEmpty_def Let_def split del: if_split cong: if_cong option.case_cong)
  have i1: "modelsMap p (m\<lparr>m_images := None\<rparr>) = modelsMap p (m\<lparr>m_images := Some []\<rparr>)"
    by (intro ext)
       (simp add: modelsMap_def models_sortedImages_def models_filteredImages_def Let_def split del: if_split cong: if_cong option.case_cong)
  have i2: "collectionsMap p (c\<lparr>c_images := None\<rparr>) = collectionsMap p (c\<lparr>c_images := Some []\<rparr>)"
    by (intro ext) (simp add: collectionsMap_def collections_filteredImages_def orEmpty_def Let_def split del: if_split cong: if_cong option.case_cong)
  have i3: "bountiesFilter p (b\<lparr>b_images := None\<rparr>) = bountiesFilter p (b\<lparr>b_images := Some []\<rparr>)"
    by (intro ext) (simp add: bountiesFilter_def orEmpty_def Let_def split del: if_split cong: if_cong option.case_cong)
  have i4: "postsMap p (q\<lparr>p_images := None\<rparr>) h = Inr (Some (q\<lparr>p_images := None\<rparr>), h)"
    by (simp add: postsMap_def)
  have o1: "verdict (imagesFilter p) (x\<lparr>i_userId := None, i_user := None\<rparr>)
       = (isModerator p \<and> i_nsfwLevel x = 0
          \<or> (if allowLowerLevels p then \<not> exceeds (i_nsfwLevel x) (maxBrowsingLevel p)
              else Flags_intersects (i_nsfwLevel x) (browsingLevel p))
            \<and> \<not> (Map_get (hiddenImages (hiddenPreferences p)) (i_id x) \<and> \<not> showHidden p)
            \<and> \<not> anyHidden (hiddenTags (hiddenPreferences p)) (orEmpty (i_tagIds x)))"
    by (simp add: verdict_images images_exempt_def orElse_def truthy_def)
  have o2: "verdict (collectionsFilter p) (c\<lparr>c_userId := None, c_user := None\<rparr>)
       = (isModerator p \<and> c_nsfwLevel c = 0
          \<or> Flags_intersects (c_nsfwLevel c) (browsingLevel p)
            \<and> (\<forall>img. c_image c = Some img \<longrightarrow>
                  \<not> Map_get (hiddenImages (hiddenPreferences p)) (oi_id img)))"
    by (simp add: verdict_collections collections_exempt_def orElse_def truthy_def)
  have o3: "verdict (postsFilter p) (q\<lparr>p_userId := None, p_user := None\<rparr>)
       = (isModerator p \<and> p_nsfwLevel q = 0
          \<or> Flags_intersects (p_nsfwLevel q) (browsingLevel p))"
    by (simp add: verdict_posts posts_exempt_def orElse_def truthy_def)
  have o4: "modelImageFilter p n (mi\<lparr>mi_userId := None\<rparr>)
       = (isModerator p \<and> mi_nsfwLevel mi = 0
          \<or> (if n then \<not> exceeds (mi_nsfwLevel mi) (maxSelectedLevel p)
              else Flags_intersects (mi_nsfwLevel mi) (browsingLevel p))
            \<and> \<not> Map_get (hiddenImages (hiddenPreferences p)) (mi_id mi)
            \<and> \<not> anyHidden (hiddenTags (hiddenPreferences p)) (orEmpty (mi_tags mi)))"
    by (auto simp: modelImageFilter_def truthy_def Let_def)
  have o5: "currentUser p \<noteq> None
       \<longrightarrow> postImageFilter p (x\<lparr>i_userId := None, i_user := None\<rparr>)
           = (isModerator p \<and> i_nsfwLevel x = 0
              \<or> Flags_intersects (i_nsfwLevel x) (browsingLevel p)
                \<and> \<not> Map_get (hiddenImages (hiddenPreferences p)) (i_id x)
                \<and> \<not> anyHidden (hiddenTags (hiddenPreferences p)) (orEmpty (i_tagIds x)))"
    by (auto simp: postImageFilter_def orElse_def currentUserId_def Let_def)
  show ?thesis
    by (rule conjI[OF r conjI[OF t1 conjI[OF t2 conjI[OF t3 conjI[OF t4 conjI[OF t5 conjI[OF t6
          conjI[OF t7 conjI[OF t8 conjI[OF i1 conjI[OF i2 conjI[OF i3 conjI[OF i4 conjI[OF o1
          conjI[OF o2 conjI[OF o3 conjI[OF o4 o5]]]]]]]]]]]]]]]]])
qed

text \<open>
  A bounty of user 8 with no \<open>tags\<close> field and with its images: the call returns. For
  viewer 7, an image of level PG with no owner passes the image callback of a post by the
  level rule.
\<close>

theorem absent_fields_witness:
  "handledKey (Bounties (Some [bounty2])) \<and> imagesPresent (Bounties (Some [bounty2]))
   \<and> b_tags bounty2 = None
   \<and> (\<exists>r. filterPreferences (Bounties (Some [bounty2])) props0 = Inr r)
   \<and> currentUser props0 \<noteq> None
   \<and> postImageFilter props0 (image1\<lparr>i_userId := None, i_user := None\<rparr>)
       = (isModerator props0 \<and> i_nsfwLevel image1 = 0
          \<or> Flags_intersects (i_nsfwLevel image1) (browsingLevel props0)
            \<and> \<not> Map_get (hiddenImages (hiddenPreferences props0)) (i_id image1)
            \<and> \<not> anyHidden (hiddenTags (hiddenPreferences props0)) (orEmpty (i_tagIds image1)))
   \<and> postImageFilter props0 (image1\<lparr>i_userId := None, i_user := None\<rparr>)"
proof -
  have k: "handledKey (Bounties (Some [bounty2])) \<and> imagesPresent (Bounties (Some [bounty2]))"
    by (simp add: orEmpty_def bounty2_def)
  have t: "b_tags bounty2 = None" by (simp add: bounty2_def)
  have u: "currentUser props0 \<noteq> None" by (simp add: props0_def)
  have v: "postImageFilter props0 (image1\<lparr>i_userId := None, i_user := None\<rparr>)" by code_simp
  note c1 = absent_fields[where td = "Bounties (Some [bounty2])" and p = props0,
      THEN conjunct1, THEN mp, OF k]
  note c2 = absent_fields[where p = props0 and x = image1, THEN conjunct2, THEN conjunct2,
      THEN conjunct2, THEN conjunct2, THEN conjunct2, THEN conjunct2, THEN conjunct2,
      THEN conjunct2, THEN conjunct2, THEN conjunct2, THEN conjunct2, THEN conjunct2,
      THEN conjunct2, THEN conjunct2, THEN conjunct2, THEN conjunct2, THEN conjunct2,
      THEN mp, OF u]
  show ?thesis
    by (rule conjI[OF conjunct1[OF k] conjI[OF conjunct2[OF k] conjI[OF t conjI[OF c1
          conjI[OF u conjI[OF c2 v]]]]]])
qed

text \<open>
  C9, as stated, fails twice. A call with an unknown content type that is disabled takes
  the early return and raises nothing. A call for bounties, a type of the closed set, with
  a bounty that has no \<open>images\<close> field raises a \<open>TypeError\<close>; the declared type \<open>BaseBounty\<close>
  excludes that input.
\<close>

theorem unhandled_type_counterexample:
  "filterPreferences (Unhandled ''videos'' True) (props0\<lparr>disabled := True\<rparr>)
     = Inr (Unhandled ''videos'' True, hidden0)
   \<and> handledKey (Bounties (Some [bounty2\<lparr>b_images := None\<rparr>]))
   \<and> filterPreferences (Bounties (Some [bounty2\<lparr>b_images := None\<rparr>])) props0 = Inl TypeError"
  by code_simp

text \<open>
  C9 (amended). The error of the default case is raised if and only if the call does not
  take the early return (data present, not disabled, preferences loaded) and the content
  type is outside the closed set; a call that takes the early return gives the empty
  result whatever the content type; for every content type of the set, bounties included,
  the call returns a result on data of the declared types, where every bounty carries its
  array of images; and an error of \<open>filterPreferences\<close> is the result of the hook that
  called it.
\<close>

theorem unhandled_type_error:
  "(filterPreferences td p = Inl UnhandledType) = (\<not> shortCircuit td p \<and> \<not> handledKey td)
   \<and> (shortCircuit td p \<longrightarrow> filterPreferences td p = Inr (noItems td, hidden0))
   \<and> (handledKey td \<and> imagesPresent td \<longrightarrow> (\<exists>r. filterPreferences td p = Inr r))
   \<and> (filterPreferences (a_typed_data a) (hookProps a e) = Inl err
        \<longrightarrow> useApplyHiddenPreferences a e = Inl err)"
proof (intro conjI impI)
  show "shortCircuit td p \<Longrightarrow> filterPreferences td p = Inr (noItems td, hidden0)"
    by (rule shortCircuit_result)
  show "filterPreferences (a_typed_data a) (hookProps a e) = Inl err
        \<Longrightarrow> useApplyHiddenPreferences a e = Inl err"
    by (simp add: useApplyHiddenPreferences_def)
  show "(filterPreferences td p = Inl UnhandledType) = (\<not> shortCircuit td p \<and> \<not> handledKey td)"
  proof (cases "handledKey td")
    case True
    with handled_returns(1)[OF True, of p] show ?thesis by simp
  next
    case False
    then obtain k present where "td = Unhandled k present" by (cases td) simp_all
    then show ?thesis by (simp add: filterPreferences_def shortCircuit_def)
  qed
  show "\<exists>r. filterPreferences td p = Inr r" if "handledKey td \<and> imagesPresent td"
    using that typed_returns[of td p] by simp
qed

text \<open>
  A disabled call for models takes the early return; a call for two bounties with their
  images returns; the hook called with the unknown type \<open>videos\<close> and data present fails
  with the error of the default case.
\<close>

theorem unhandled_type_error_witness:
  "shortCircuit (Models None) props0
   \<and> filterPreferences (Models None) props0 = Inr (Models (Some []), hidden0)
   \<and> handledKey (Bounties (Some [bounty0, bounty2]))
   \<and> imagesPresent (Bounties (Some [bounty0, bounty2]))
   \<and> (\<exists>r. filterPreferences (Bounties (Some [bounty0, bounty2])) props0 = Inr r)
   \<and> filterPreferences (a_typed_data (args0 (Unhandled ''videos'' True)))
        (hookProps (args0 (Unhandled ''videos'' True)) env0) = Inl UnhandledType
   \<and> useApplyHiddenPreferences (args0 (Unhandled ''videos'' True)) env0 = Inl UnhandledType"
proof -
  have h1: "shortCircuit (Models None) props0"
    by (simp add: shortCircuit_def)
  have h2: "filterPreferences (a_typed_data (args0 (Unhandled ''videos'' True)))
        (hookProps (args0 (Unhandled ''videos'' True)) env0) = Inl UnhandledType"
    by (simp add: filterPreferences_def args0_def hookProps_def env0_def mergedPreferences_def
        prefs0_def)
  have h3: "handledKey (Bounties (Some [bounty0, bounty2]))
      \<and> imagesPresent (Bounties (Some [bounty0, bounty2]))"
    by (simp add: orEmpty_def bounty0_def bounty2_def)
  note t1 = unhandled_type_error[of "Models None" props0 "args0 (Unhandled ''videos'' True)" env0
      UnhandledType]
  note t2 = unhandled_type_error[of "Bounties (Some [bounty0, bounty2])" props0]
  from t1 h1 have c1: "filterPreferences (Models None) props0 = Inr (Models (Some []), hidden0)"
    by simp
  from t1 h2
  have c2: "useApplyHiddenPreferences (args0 (Unhandled ''videos'' True)) env0 = Inl UnhandledType"
    by simp
  from t2[THEN conjunct2, THEN conjunct2, THEN conjunct1, THEN mp, OF h3]
  have c3: "\<exists>r. filterPreferences (Bounties (Some [bounty0, bounty2])) props0 = Inr r" .
  from h1 c1 h3 c3 h2 c2 show ?thesis by simp
qed

text \<open>
  C10. The \<open>hiddenCount\<close> that the hook returns is the sum of the counters browsingLevel,
  models, images, tags and users of the tally of its call of \<open>filterPreferences\<close>; the
  counter unprocessed is 0, so \<open>hiddenCount\<close> is the whole tally less the counter noImages.
\<close>

theorem hiddenCount_sum:
  assumes "useApplyHiddenPreferences a e = Inr r"
  shows "\<exists>its hid. filterPreferences (a_typed_data a) (hookProps a e) = Inr (its, hid)
           \<and> hiddenCount r = h_browsingLevel hid + h_models hid + h_images hid + h_tags hid
                              + h_users hid
           \<and> h_unprocessed hid = 0
           \<and> hiddenCount r + h_noImages hid = tallySum hid"
proof (cases "filterPreferences (a_typed_data a) (hookProps a e)")
  case (Inl err)
  with assms show ?thesis by (simp add: useApplyHiddenPreferences_def)
next
  case (Inr res)
  obtain its hid where res: "res = (its, hid)" by (cases res)
  from Inr res unprocessed_zero[of "a_typed_data a" "hookProps a e" its hid]
  have u: "h_unprocessed hid = 0" by simp
  from assms Inr res have
    "hiddenCount r = h_browsingLevel hid + h_models hid + h_images hid + h_tags hid + h_users hid"
    by (auto simp: useApplyHiddenPreferences_def)
  with Inr res u show ?thesis by (simp add: tallySum_def)
qed

text \<open>
  The model of viewer 7 loses its only image, is kept because \<open>showImageless\<close> is set,
  and is counted under noImages: \<open>hiddenCount\<close> is 0 and the tally sums to 1.
\<close>

theorem hiddenCount_sum_witness:
  "useApplyHiddenPreferences (args0 (Models (Some [model0]))) env0
     = Inr \<lparr>loadingPreferences = False,
            items = Models (Some [model0\<lparr>m_images := Some []\<rparr>]), hiddenCount = 0\<rparr>
   \<and> (\<exists>its hid. filterPreferences (a_typed_data (args0 (Models (Some [model0]))))
                    (hookProps (args0 (Models (Some [model0]))) env0) = Inr (its, hid)
         \<and> (0::nat) = h_browsingLevel hid + h_models hid + h_images hid + h_tags hid + h_users hid
         \<and> h_unprocessed hid = 0
         \<and> 0 + h_noImages hid = tallySum hid)"
proof -
  have h: "useApplyHiddenPreferences (args0 (Models (Some [model0]))) env0
     = Inr \<lparr>loadingPreferences = False,
            items = Models (Some [model0\<lparr>m_images := Some []\<rparr>]), hiddenCount = 0\<rparr>"
    by code_simp
  from hiddenCount_sum[OF h] h show ?thesis by simp
qed

text \<open>
  C3, as stated, fails: the model of viewer 7 passes the callback of \<open>filter\<close>, loses its
  only image to the browsing level and, \<open>showImageless\<close> being false, is dropped.
\<close>

theorem imageless_parent_counterexample:
  "filterPreferences (Models (Some [model0])) props0
     = Inr (Models (Some []), hidden0\<lparr>h_noImages := 1\<rparr>)
   \<and> verdict (modelsFilter props0) model0 \<and> models_sortedImages props0 model0 = []
   \<and> \<not> showImageless props0"
  by code_simp

text \<open>
  C3 (amended). On a call that enters the switch, a model, a post with an array of images
  or a collection that passes the callback of \<open>filter\<close> and whose child images are all
  filtered out is returned with an empty array of images exactly when \<open>showImageless\<close> is
  true, and is dropped when it is false; a bounty in the same situation is dropped
  whatever \<open>showImageless\<close> is.
\<close>

theorem imageless_parents:
  "(\<not> shortCircuit (Models (Some ms)) p
      \<and> filterPreferences (Models (Some ms)) p = Inr (Models (Some mout), hm)
      \<and> m \<in> set ms \<and> verdict (modelsFilter p) m \<and> models_sortedImages p m = []
      \<longrightarrow> (m\<lparr>m_images := Some []\<rparr> \<in> set mout) = showImageless p)
   \<and> (\<not> shortCircuit (Posts (Some ps)) p
      \<and> filterPreferences (Posts (Some ps)) p = Inr (Posts (Some pout), hp)
      \<and> q \<in> set ps \<and> verdict (postsFilter p) q \<and> p_images q = Some imgs
      \<and> filter (postImageFilter p) imgs = []
      \<longrightarrow> (q\<lparr>p_images := Some []\<rparr> \<in> set pout) = showImageless p)
   \<and> (\<not> shortCircuit (Collections (Some cs)) p
      \<and> filterPreferences (Collections (Some cs)) p = Inr (Collections (Some cout), hc)
      \<and> c \<in> set cs \<and> verdict (collectionsFilter p) c \<and> collections_filteredImages p c = []
      \<longrightarrow> (c\<lparr>c_image := None, c_images := Some []\<rparr> \<in> set cout) = showImageless p)
   \<and> (\<not> shortCircuit (Bounties (Some bs)) p
      \<and> filterPreferences (Bounties (Some bs)) p = Inr (Bounties (Some bout), hb)
      \<and> b \<in> set bs \<and> verdict (bountiesFilter p) b \<and> bounties_filteredImages p b = Some []
      \<longrightarrow> b\<lparr>b_images := Some []\<rparr> \<notin> set bout)"
proof (intro conjI impI)
  assume a: "\<not> shortCircuit (Models (Some ms)) p
      \<and> filterPreferences (Models (Some ms)) p = Inr (Models (Some mout), hm)
      \<and> m \<in> set ms \<and> verdict (modelsFilter p) m \<and> models_sortedImages p m = []"
  with models_result[of ms p]
  have out: "mout = List.map_filter (mapped (modelsMap p)) (filter (verdict (modelsFilter p)) ms)"
    by simp
  show "(m\<lparr>m_images := Some []\<rparr> \<in> set mout) = showImageless p"
  proof (cases "showImageless p")
    case True
    with a have "mapped (modelsMap p) m = Some (m\<lparr>m_images := Some []\<rparr>)"
      by (simp add: mapped_models)
    with a True show ?thesis unfolding out set_map_filter' by auto
  next
    case False
    have "m_images y \<noteq> Some []" if "y \<in> set mout" for y
      using that False unfolding out set_map_filter'
      by (auto simp: mapped_models split: if_splits)
    from this[of "m\<lparr>m_images := Some []\<rparr>"] False show ?thesis by auto
  qed
next
  assume a: "\<not> shortCircuit (Posts (Some ps)) p
      \<and> filterPreferences (Posts (Some ps)) p = Inr (Posts (Some pout), hp)
      \<and> q \<in> set ps \<and> verdict (postsFilter p) q \<and> p_images q = Some imgs
      \<and> filter (postImageFilter p) imgs = []"
  with posts_result[of ps p]
  have out: "pout = List.map_filter (mapped (postsMap p)) (filter (verdict (postsFilter p)) ps)"
    by simp
  show "(q\<lparr>p_images := Some []\<rparr> \<in> set pout) = showImageless p"
  proof (cases "showImageless p")
    case True
    with a have "mapped (postsMap p) q = Some (q\<lparr>p_images := Some []\<rparr>)"
      by (simp add: mapped_posts)
    with a True show ?thesis unfolding out set_map_filter' by auto
  next
    case False
    have "p_images y \<noteq> Some []" if "y \<in> set pout" for y
      using that False unfolding out set_map_filter'
      by (auto simp: mapped_posts split: if_splits option.splits)
    from this[of "q\<lparr>p_images := Some []\<rparr>"] False show ?thesis by auto
  qed
next
  assume a: "\<not> shortCircuit (Collections (Some cs)) p
      \<and> filterPreferences (Collections (Some cs)) p = Inr (Collections (Some cout), hc)
      \<and> c \<in> set cs \<and> verdict (collectionsFilter p) c \<and> collections_filteredImages p c = []"
  with collections_result[of cs p]
  have out: "cout = List.map_filter (mapped (collectionsMap p))
                      (filter (verdict (collectionsFilter p)) cs)"
    by simp
  show "(c\<lparr>c_image := None, c_images := Some []\<rparr> \<in> set cout) = showImageless p"
  proof (cases "showImageless p")
    case True
    with a have "mapped (collectionsMap p) c = Some (c\<lparr>c_image := None, c_images := Some []\<rparr>)"
      by (simp add: mapped_collections)
    with a True show ?thesis unfolding out set_map_filter' by auto
  next
    case False
    have "c_images y \<noteq> Some []" if "y \<in> set cout" for y
      using that False unfolding out set_map_filter'
      by (auto simp: mapped_collections split: if_splits)
    from this[of "c\<lparr>c_image := None, c_images := Some []\<rparr>"] False show ?thesis by auto
  qed
next
  assume a: "\<not> shortCircuit (Bounties (Some bs)) p
      \<and> filterPreferences (Bounties (Some bs)) p = Inr (Bounties (Some bout), hb)
      \<and> b \<in> set bs \<and> verdict (bountiesFilter p) b \<and> bounties_filteredImages p b = Some []"
  with bounties_result[of bs p]
  have out: "bout = List.map_filter (mapped (bountiesMap p))
                      (filter (verdict (bountiesFilter p)) bs)"
    by (simp split: if_splits)
  have "b_images y \<noteq> Some []" if "y \<in> set bout" for y
    using that unfolding out set_map_filter'
    by (auto simp: mapped_bounties split: if_splits option.splits)
  from this[of "b\<lparr>b_images := Some []\<rparr>"]
  show "b\<lparr>b_images := Some []\<rparr> \<notin> set bout" by auto
qed

text \<open>
  With \<open>showImageless\<close> false, the model, the post, the collection and the bounty of
  viewer 7 each lose their only image and are dropped.
\<close>

theorem imageless_parents_witness:
  "(\<not> shortCircuit (Models (Some [model0])) props0
      \<and> filterPreferences (Models (Some [model0])) props0
          = Inr (Models (Some []), hidden0\<lparr>h_noImages := 1\<rparr>)
      \<and> model0 \<in> set [model0] \<and> verdict (modelsFilter props0) model0
      \<and> models_sortedImages props0 model0 = [])
   \<and> (model0\<lparr>m_images := Some []\<rparr> \<in> set []) = showImageless props0
   \<and> (\<not> shortCircuit (Posts (Some [post0])) props0
      \<and> filterPreferences (Posts (Some [post0])) props0
          = Inr (Posts (Some []), hidden0\<lparr>h_noImages := 1\<rparr>)
      \<and> post0 \<in> set [post0] \<and> verdict (postsFilter props0) post0
      \<and> p_images post0 = Some [\<lparr>i_id = 11, i_userId = None, i_user = None, i_tagIds = None,
                       i_nsfwLevel = 4\<rparr>]
      \<and> filter (postImageFilter props0) [\<lparr>i_id = 11, i_userId = None, i_user = None,
                       i_tagIds = None, i_nsfwLevel = 4\<rparr>] = [])
   \<and> (post0\<lparr>p_images := Some []\<rparr> \<in> set []) = showImageless props0
   \<and> (\<not> shortCircuit (Collections (Some [collection0])) props0
      \<and> filterPreferences (Collections (Some [collection0])) props0
          = Inr (Collections (Some []), hidden0\<lparr>h_noImages := 1\<rparr>)
      \<and> collection0 \<in> set [collection0] \<and> verdict (collectionsFilter props0) collection0
      \<and> collections_filteredImages props0 collection0 = [])
   \<and> (collection0\<lparr>c_image := None, c_images := Some []\<rparr> \<in> set []) = showImageless props0
   \<and> (\<not> shortCircuit (Bounties (Some [bounty0])) props0
      \<and> filterPreferences (Bounties (Some [bounty0])) props0
          = Inr (Bounties (Some []), hidden0\<lparr>h_noImages := 1\<rparr>)
      \<and> bounty0 \<in> set [bounty0] \<and> verdict (bountiesFilter props0) bounty0
      \<and> bounties_filteredImages props0 bounty0 = Some [])
   \<and> bounty0\<lparr>b_images := Some []\<rparr> \<notin> set []"
proof -
  have m: "\<not> shortCircuit (Models (Some [model0])) props0
      \<and> filterPreferences (Models (Some [model0])) props0
          = Inr (Models (Some []), hidden0\<lparr>h_noImages := 1\<rparr>)
      \<and> model0 \<in> set [model0] \<and> verdict (modelsFilter props0) model0
      \<and> models_sortedImages props0 model0 = []"
    by code_simp
  have q: "\<not> shortCircuit (Posts (Some [post0])) props0
      \<and> filterPreferences (Posts (Some [post0])) props0
          = Inr (Posts (Some []), hidden0\<lparr>h_noImages := 1\<rparr>)
      \<and> post0 \<in> set [post0] \<and> verdict (postsFilter props0) post0
      \<and> p_images post0 = Some [\<lparr>i_id = 11, i_userId = None, i_user = None, i_tagIds = None,
                       i_nsfwLevel = 4\<rparr>]
      \<and> filter (postImageFilter props0) [\<lparr>i_id = 11, i_userId = None, i_user = None,
                       i_tagIds = None, i_nsfwLevel = 4\<rparr>] = []"
    by code_simp
  have c: "\<not> shortCircuit (Collections (Some [collection0])) props0
      \<and> filterPreferences (Collections (Some [collection0])) props0
          = Inr (Collections (Some []), hidden0\<lparr>h_noImages := 1\<rparr>)
      \<and> collection0 \<in> set [collection0] \<and> verdict (collectionsFilter props0) collection0
      \<and> collections_filteredImages props0 collection0 = []"
    by code_simp
  have b: "\<not> shortCircuit (Bounties (Some [bounty0])) props0
      \<and> filterPreferences (Bounties (Some [bounty0])) props0
          = Inr (Bounties (Some []), hidden0\<lparr>h_noImages := 1\<rparr>)
      \<and> bounty0 \<in> set [bounty0] \<and> verdict (bountiesFilter props0) bounty0
      \<and> bounties_filteredImages props0 bounty0 = Some []"
    by code_simp
  note t = imageless_parents[of "[model0]" props0 "[]" "hidden0\<lparr>h_noImages := 1\<rparr>" model0
      "[post0]" "[]" "hidden0\<lparr>h_noImages := 1\<rparr>" post0
      "[\<lparr>i_id = 11, i_userId = None, i_user = None, i_tagIds = None, i_nsfwLevel = 4\<rparr>]"
      "[collection0]" "[]" "hidden0\<lparr>h_noImages := 1\<rparr>" collection0
      "[bounty0]" "[]" "hidden0\<lparr>h_noImages := 1\<rparr>" bounty0]
  from t m have 1: "(model0\<lparr>m_images := Some []\<rparr> \<in> set []) = showImageless props0" by blast
  from t q have 2: "(post0\<lparr>p_images := Some []\<rparr> \<in> set []) = showImageless props0" by blast
  from t c have 3: "(collection0\<lparr>c_image := None, c_images := Some []\<rparr> \<in> set [])
      = showImageless props0" by blast
  from t b have 4: "bounty0\<lparr>b_images := Some []\<rparr> \<notin> set []" by blast
  from m q c b 1 2 3 4 show ?thesis by blast
qed

text \<open>
  C1, as stated, fails: the collection of viewer 7 has level 0 and passes the callback of
  \<open>filter\<close>, but its only image is filtered out and, \<open>showImageless\<close> being false, the
  collection is not in the output.
\<close>

theorem exempt_item_counterexample:
  "filterPreferences (Collections (Some [collection0])) props0
     = Inr (Collections (Some []), hidden0\<lparr>h_noImages := 1\<rparr>)
   \<and> orElse (c_userId collection0) (c_user collection0) = currentUserId props0
   \<and> c_nsfwLevel collection0 = 0"
  by code_simp

text \<open>
  C1 (amended). On a call that enters the switch, let the viewer own an item (for images,
  collections and posts: through a non-zero owner id) or be a moderator, and let the level
  of the item be 0. Whatever the hidden sets and the browsing level are, an image or an
  article is in the output; a model, a collection or a post is in the output, with its
  images filtered, if one of its images survives or \<open>showImageless\<close> is set (a post also if
  it has no array of images); a bounty is in the output if one of its images survives.
\<close>

theorem exempt_items_visible:
  "(\<not> shortCircuit (Images (Some xs)) p
      \<and> filterPreferences (Images (Some xs)) p = Inr (Images (Some xout), hx)
      \<and> x \<in> set xs \<and> images_exempt p x \<longrightarrow> x \<in> set xout)
   \<and> (\<not> shortCircuit (Articles (Some as)) p
      \<and> filterPreferences (Articles (Some as)) p = Inr (Articles (Some aout), ha)
      \<and> a \<in> set as \<and> articles_exempt p a \<longrightarrow> a \<in> set aout)
   \<and> (\<not> shortCircuit (Models (Some ms)) p
      \<and> filterPreferences (Models (Some ms)) p = Inr (Models (Some mout), hm)
      \<and> m \<in> set ms \<and> models_exempt p m
      \<and> (models_sortedImages p m \<noteq> [] \<or> showImageless p)
      \<longrightarrow> m\<lparr>m_images := Some (models_sortedImages p m)\<rparr> \<in> set mout)
   \<and> (\<not> shortCircuit (Collections (Some cs)) p
      \<and> filterPreferences (Collections (Some cs)) p = Inr (Collections (Some cout), hc)
      \<and> c \<in> set cs \<and> collections_exempt p c
      \<and> (collections_filteredImages p c \<noteq> [] \<or> showImageless p)
      \<longrightarrow> c\<lparr>c_image := None, c_images := Some (collections_filteredImages p c)\<rparr> \<in> set cout)
   \<and> (\<not> shortCircuit (Bounties (Some bs)) p
      \<and> filterPreferences (Bounties (Some bs)) p = Inr (Bounties (Some bout), hb)
      \<and> b \<in> set bs \<and> bounties_exempt p b
      \<and> bounties_filteredImages p b = Some fi \<and> fi \<noteq> []
      \<longrightarrow> b\<lparr>b_images := Some fi\<rparr> \<in> set bout)
   \<and> (\<not> shortCircuit (Posts (Some ps)) p
      \<and> filterPreferences (Posts (Some ps)) p = Inr (Posts (Some pout), hp)
      \<and> q \<in> set ps \<and> posts_exempt p q
      \<and> (p_images q = None \<or> filter (postImageFilter p) (orEmpty (p_images q)) \<noteq> []
          \<or> showImageless p)
      \<longrightarrow> (case p_images q of None \<Rightarrow> q
           | Some imgs \<Rightarrow> q\<lparr>p_images := Some (filter (postImageFilter p) imgs)\<rparr>) \<in> set pout)"
proof (intro conjI impI)
  assume a: "\<not> shortCircuit (Images (Some xs)) p
      \<and> filterPreferences (Images (Some xs)) p = Inr (Images (Some xout), hx)
      \<and> x \<in> set xs \<and> images_exempt p x"
  with images_result[of xs p] have "xout = filter (verdict (imagesFilter p)) xs" by simp
  with a show "x \<in> set xout" by (simp add: verdict_images)
next
  assume a: "\<not> shortCircuit (Articles (Some as)) p
      \<and> filterPreferences (Articles (Some as)) p = Inr (Articles (Some aout), ha)
      \<and> a \<in> set as \<and> articles_exempt p a"
  with articles_result[of as p] have "aout = filter (verdict (articlesFilter p)) as" by simp
  with a show "a \<in> set aout" by (simp add: verdict_articles)
next
  assume a: "\<not> shortCircuit (Models (Some ms)) p
      \<and> filterPreferences (Models (Some ms)) p = Inr (Models (Some mout), hm)
      \<and> m \<in> set ms \<and> models_exempt p m
      \<and> (models_sortedImages p m \<noteq> [] \<or> showImageless p)"
  with models_result[of ms p]
  have out: "mout = List.map_filter (mapped (modelsMap p)) (filter (verdict (modelsFilter p)) ms)"
    by simp
  from a have "mapped (modelsMap p) m = Some (m\<lparr>m_images := Some (models_sortedImages p m)\<rparr>)"
    by (auto simp: mapped_models)
  moreover from a have "verdict (modelsFilter p) m" by (simp add: verdict_models)
  ultimately show "m\<lparr>m_images := Some (models_sortedImages p m)\<rparr> \<in> set mout"
    using a unfolding out set_map_filter' by auto
next
  assume a: "\<not> shortCircuit (Collections (Some cs)) p
      \<and> filterPreferences (Collections (Some cs)) p = Inr (Collections (Some cout), hc)
      \<and> c \<in> set cs \<and> collections_exempt p c
      \<and> (collections_filteredImages p c \<noteq> [] \<or> showImageless p)"
  with collections_result[of cs p]
  have out: "cout = List.map_filter (mapped (collectionsMap p))
                      (filter (verdict (collectionsFilter p)) cs)"
    by simp
  from a have "mapped (collectionsMap p) c
      = Some (c\<lparr>c_image := None, c_images := Some (collections_filteredImages p c)\<rparr>)"
    by (auto simp: mapped_collections)
  moreover from a have "verdict (collectionsFilter p) c" by (simp add: verdict_collections)
  ultimately show "c\<lparr>c_image := None, c_images := Some (collections_filteredImages p c)\<rparr>
      \<in> set cout"
    using a unfolding out set_map_filter' by auto
next
  assume a: "\<not> shortCircuit (Bounties (Some bs)) p
      \<and> filterPreferences (Bounties (Some bs)) p = Inr (Bounties (Some bout), hb)
      \<and> b \<in> set bs \<and> bounties_exempt p b
      \<and> bounties_filteredImages p b = Some fi \<and> fi \<noteq> []"
  with bounties_result[of bs p]
  have out: "bout = List.map_filter (mapped (bountiesMap p))
                      (filter (verdict (bountiesFilter p)) bs)"
    by (simp split: if_splits)
  from a have "mapped (bountiesMap p) b = Some (b\<lparr>b_images := Some fi\<rparr>)"
    by (auto simp: mapped_bounties)
  moreover from a have "verdict (bountiesFilter p) b" by (simp add: verdict_bounties)
  ultimately show "b\<lparr>b_images := Some fi\<rparr> \<in> set bout"
    using a unfolding out set_map_filter' by auto
next
  assume a: "\<not> shortCircuit (Posts (Some ps)) p
      \<and> filterPreferences (Posts (Some ps)) p = Inr (Posts (Some pout), hp)
      \<and> q \<in> set ps \<and> posts_exempt p q
      \<and> (p_images q = None \<or> filter (postImageFilter p) (orEmpty (p_images q)) \<noteq> []
          \<or> showImageless p)"
  with posts_result[of ps p]
  have out: "pout = List.map_filter (mapped (postsMap p)) (filter (verdict (postsFilter p)) ps)"
    by simp
  from a have "mapped (postsMap p) q
      = Some (case p_images q of None \<Rightarrow> q
              | Some imgs \<Rightarrow> q\<lparr>p_images := Some (filter (postImageFilter p) imgs)\<rparr>)"
    by (auto simp: mapped_posts orEmpty_def split: option.splits)
  moreover from a have "verdict (postsFilter p) q" by (simp add: verdict_posts)
  ultimately show "(case p_images q of None \<Rightarrow> q
           | Some imgs \<Rightarrow> q\<lparr>p_images := Some (filter (postImageFilter p) imgs)\<rparr>) \<in> set pout"
    using a unfolding out set_map_filter' by auto
qed

text \<open>
  Viewer 7 hides model 1, image 20, tag 5 and user 7, and keeps imageless parents: the
  items of viewer 7 with level 0 are all in the output.
\<close>

theorem exempt_items_visible_witness:
  "(\<not> shortCircuit (Images (Some [image0])) props1
      \<and> filterPreferences (Images (Some [image0])) props1 = Inr (Images (Some [image0]), hidden0)
      \<and> image0 \<in> set [image0] \<and> images_exempt props1 image0)
   \<and> image0 \<in> set [image0]
   \<and> (\<not> shortCircuit (Articles (Some [article0])) props1
      \<and> filterPreferences (Articles (Some [article0])) props1
          = Inr (Articles (Some [article0]), hidden0)
      \<and> article0 \<in> set [article0] \<and> articles_exempt props1 article0)
   \<and> article0 \<in> set [article0]
   \<and> (\<not> shortCircuit (Models (Some [model0])) props1
      \<and> filterPreferences (Models (Some [model0])) props1
          = Inr (Models (Some [model0\<lparr>m_images := Some []\<rparr>]), hidden0\<lparr>h_noImages := 1\<rparr>)
      \<and> model0 \<in> set [model0] \<and> models_exempt props1 model0
      \<and> showImageless props1 \<and> models_sortedImages props1 model0 = [])
   \<and> model0\<lparr>m_images := Some (models_sortedImages props1 model0)\<rparr>
        \<in> set [model0\<lparr>m_images := Some []\<rparr>]
   \<and> (\<not> shortCircuit (Collections (Some [collection0])) props1
      \<and> filterPreferences (Collections (Some [collection0])) props1
          = Inr (Collections (Some [collection0\<lparr>c_image := None, c_images := Some []\<rparr>]),
                 hidden0\<lparr>h_noImages := 1\<rparr>)
      \<and> collection0 \<in> set [collection0] \<and> collections_exempt props1 collection0
      \<and> showImageless props1 \<and> collections_filteredImages props1 collection0 = [])
   \<and> collection0\<lparr>c_image := None, c_images := Some (collections_filteredImages props1 collection0)\<rparr>
        \<in> set [collection0\<lparr>c_image := None, c_images := Some []\<rparr>]
   \<and> (\<not> shortCircuit (Bounties (Some [bounty1])) props1
      \<and> filterPreferences (Bounties (Some [bounty1])) props1
          = Inr (Bounties (Some [bounty1]), hidden0)
      \<and> bounty1 \<in> set [bounty1] \<and> bounties_exempt props1 bounty1
      \<and> bounties_filteredImages props1 bounty1 = b_images bounty1)
   \<and> bounty1\<lparr>b_images := b_images bounty1\<rparr> \<in> set [bounty1]
   \<and> (\<not> shortCircuit (Posts (Some [post0])) props1
      \<and> filterPreferences (Posts (Some [post0])) props1
          = Inr (Posts (Some [post0\<lparr>p_images := Some []\<rparr>]), hidden0\<lparr>h_noImages := 1\<rparr>)
      \<and> post0 \<in> set [post0] \<and> posts_exempt props1 post0 \<and> showImageless props1)
   \<and> post0\<lparr>p_images := Some []\<rparr> \<in> set [post0\<lparr>p_images := Some []\<rparr>]"
proof -
  have x: "\<not> shortCircuit (Images (Some [image0])) props1
      \<and> filterPreferences (Images (Some [image0])) props1 = Inr (Images (Some [image0]), hidden0)
      \<and> image0 \<in> set [image0] \<and> images_exempt props1 image0"
    by code_simp
  have a: "\<not> shortCircuit (Articles (Some [article0])) props1
      \<and> filterPreferences (Articles (Some [article0])) props1
          = Inr (Articles (Some [article0]), hidden0)
      \<and> article0 \<in> set [article0] \<and> articles_exempt props1 article0"
    by code_simp
  have m: "\<not> shortCircuit (Models (Some [model0])) props1
      \<and> filterPreferences (Models (Some [model0])) props1
          = Inr (Models (Some [model0\<lparr>m_images := Some []\<rparr>]), hidden0\<lparr>h_noImages := 1\<rparr>)
      \<and> model0 \<in> set [model0] \<and> models_exempt props1 model0
      \<and> showImageless props1 \<and> models_sortedImages props1 model0 = []"
    by code_simp
  have c: "\<not> shortCircuit (Collections (Some [collection0])) props1
      \<and> filterPreferences (Collections (Some [collection0])) props1
          = Inr (Collections (Some [collection0\<lparr>c_image := None, c_images := Some []\<rparr>]),
                 hidden0\<lparr>h_noImages := 1\<rparr>)
      \<and> collection0 \<in> set [collection0] \<and> collections_exempt props1 collection0
      \<and> showImageless props1 \<and> collections_filteredImages props1 collection0 = []"
    by code_simp
  have b: "\<not> shortCircuit (Bounties (Some [bounty1])) props1
      \<and> filterPreferences (Bounties (Some [bounty1])) props1
          = Inr (Bounties (Some [bounty1]), hidden0)
      \<and> bounty1 \<in> set [bounty1] \<and> bounties_exempt props1 bounty1
      \<and> bounties_filteredImages props1 bounty1 = b_images bounty1"
    by code_simp
  have bi: "b_images bounty1
      = Some [\<lparr>oi_id = 14, oi_tagIds = None, oi_nsfwLevel = 1, oi_userId = 8\<rparr>]"
    by (simp add: bounty1_def)
  have q: "\<not> shortCircuit (Posts (Some [post0])) props1
      \<and> filterPreferences (Posts (Some [post0])) props1
          = Inr (Posts (Some [post0\<lparr>p_images := Some []\<rparr>]), hidden0\<lparr>h_noImages := 1\<rparr>)
      \<and> post0 \<in> set [post0] \<and> posts_exempt props1 post0 \<and> showImageless props1"
    by code_simp
  have qi: "(case p_images post0 of None \<Rightarrow> post0
           | Some imgs \<Rightarrow> post0\<lparr>p_images := Some (filter (postImageFilter props1) imgs)\<rparr>)
      = post0\<lparr>p_images := Some []\<rparr>"
    by code_simp
  note t = exempt_items_visible[of "[image0]" props1 "[image0]" hidden0 image0
      "[article0]" "[article0]" hidden0 article0
      "[model0]" "[model0\<lparr>m_images := Some []\<rparr>]" "hidden0\<lparr>h_noImages := 1\<rparr>" model0
      "[collection0]" "[collection0\<lparr>c_image := None, c_images := Some []\<rparr>]"
      "hidden0\<lparr>h_noImages := 1\<rparr>" collection0
      "[bounty1]" "[bounty1]" hidden0 bounty1
      "[\<lparr>oi_id = 14, oi_tagIds = None, oi_nsfwLevel = 1, oi_userId = 8\<rparr>]"
      "[post0]" "[post0\<lparr>p_images := Some []\<rparr>]" "hidden0\<lparr>h_noImages := 1\<rparr>" post0]
  from t x have 1: "image0 \<in> set [image0]" by blast
  from t a have 2: "article0 \<in> set [article0]" by blast
  from t m have 3: "model0\<lparr>m_images := Some (models_sortedImages props1 model0)\<rparr>
        \<in> set [model0\<lparr>m_images := Some []\<rparr>]" by blast
  from t c have 4: "collection0\<lparr>c_image := None,
        c_images := Some (collections_filteredImages props1 collection0)\<rparr>
        \<in> set [collection0\<lparr>c_image := None, c_images := Some []\<rparr>]" by blast
  from t b bi have 5: "bounty1\<lparr>b_images := b_images bounty1\<rparr> \<in> set [bounty1]" by simp
  from t q qi have 6: "post0\<lparr>p_images := Some []\<rparr> \<in> set [post0\<lparr>p_images := Some []\<rparr>]"
    by simp
  from x a m c b q 1 2 3 4 5 6 show ?thesis by blast
qed







text \<open>
  C4. For models and for images, a call with \<open>showHidden\<close> true gives the result of the
  call with the set of hidden models (hidden images) emptied: an item that only its own
  id excludes is in the output. An item of the output of a call with \<open>showHidden\<close> true
  that is not exempt still meets the level rule, has no hidden owner and carries no hidden
  tag: \<open>showHidden\<close> lifts none of these three rules.
\<close>

theorem showHidden_reveals:
  "filterPreferences (Models d) (p\<lparr>showHidden := True\<rparr>)
     = filterPreferences (Models d) (p\<lparr>showHidden := sh,
         hiddenPreferences := (hiddenPreferences p)\<lparr>hiddenModels := Map.empty\<rparr>\<rparr>)
   \<and> filterPreferences (Images e) (p\<lparr>showHidden := True\<rparr>)
     = filterPreferences (Images e) (p\<lparr>showHidden := sh,
         hiddenPreferences := (hiddenPreferences p)\<lparr>hiddenImages := Map.empty\<rparr>\<rparr>)
   \<and> (showHidden p \<and> filterPreferences (Images (Some xs)) p = Inr (Images (Some xout), hx)
       \<and> x \<in> set xout \<and> \<not> images_exempt p x
      \<longrightarrow> (if allowLowerLevels p
             then \<not> exceeds (i_nsfwLevel x) (Flags_maxValue (browsingLevel p))
           else Flags_intersects (i_nsfwLevel x) (browsingLevel p))
          \<and> \<not> (truthy (orElse (i_userId x) (i_user x))
                \<and> Map_get (hiddenUsers (hiddenPreferences p))
                     (the (orElse (i_userId x) (i_user x))))
          \<and> \<not> anyHidden (hiddenTags (hiddenPreferences p)) (orEmpty (i_tagIds x)))
   \<and> (showHidden p \<and> filterPreferences (Models (Some ms)) p = Inr (Models (Some mout), hm)
       \<and> m \<in> set mout \<and> \<not> models_exempt p m
      \<longrightarrow> Flags_intersects (m_nsfwLevel m) (browsingLevel p)
          \<and> \<not> (m_user m \<noteq> 0 \<and> Map_get (hiddenUsers (hiddenPreferences p)) (m_user m))
          \<and> \<not> anyHidden (hiddenTags (hiddenPreferences p)) (orEmpty (m_tags m)))"
proof -
  have e1: "filterPreferences (Models d) (p\<lparr>showHidden := True\<rparr>)
     = filterPreferences (Models d) (p\<lparr>showHidden := sh,
         hiddenPreferences := (hiddenPreferences p)\<lparr>hiddenModels := Map.empty\<rparr>\<rparr>)"
    by (simp add: filterPreferences_def modelsFilter_showHidden[of p sh]
        modelsMap_showHidden[of p sh])
  have e2: "filterPreferences (Images e) (p\<lparr>showHidden := True\<rparr>)
     = filterPreferences (Images e) (p\<lparr>showHidden := sh,
         hiddenPreferences := (hiddenPreferences p)\<lparr>hiddenImages := Map.empty\<rparr>\<rparr>)"
    by (simp add: filterPreferences_def imagesFilter_showHidden[of p sh])
  have i1: "showHidden p \<and> filterPreferences (Images (Some xs)) p = Inr (Images (Some xout), hx)
       \<and> x \<in> set xout \<and> \<not> images_exempt p x
      \<longrightarrow> (if allowLowerLevels p
             then \<not> exceeds (i_nsfwLevel x) (Flags_maxValue (browsingLevel p))
           else Flags_intersects (i_nsfwLevel x) (browsingLevel p))
          \<and> \<not> (truthy (orElse (i_userId x) (i_user x))
                \<and> Map_get (hiddenUsers (hiddenPreferences p))
                     (the (orElse (i_userId x) (i_user x))))
          \<and> \<not> anyHidden (hiddenTags (hiddenPreferences p)) (orEmpty (i_tagIds x))"
  proof (rule impI)
    assume a: "showHidden p
       \<and> filterPreferences (Images (Some xs)) p = Inr (Images (Some xout), hx)
       \<and> x \<in> set xout \<and> \<not> images_exempt p x"
    with images_member[of xs p xout hx x] have "verdict (imagesFilter p) x" by simp
    with a show "(if allowLowerLevels p
             then \<not> exceeds (i_nsfwLevel x) (Flags_maxValue (browsingLevel p))
           else Flags_intersects (i_nsfwLevel x) (browsingLevel p))
          \<and> \<not> (truthy (orElse (i_userId x) (i_user x))
                \<and> Map_get (hiddenUsers (hiddenPreferences p))
                     (the (orElse (i_userId x) (i_user x))))
          \<and> \<not> anyHidden (hiddenTags (hiddenPreferences p)) (orEmpty (i_tagIds x))"
      by (auto simp: verdict_images maxBrowsingLevel_def split: if_splits)
  qed
  have i2: "showHidden p \<and> filterPreferences (Models (Some ms)) p = Inr (Models (Some mout), hm)
       \<and> m \<in> set mout \<and> \<not> models_exempt p m
      \<longrightarrow> Flags_intersects (m_nsfwLevel m) (browsingLevel p)
          \<and> \<not> (m_user m \<noteq> 0 \<and> Map_get (hiddenUsers (hiddenPreferences p)) (m_user m))
          \<and> \<not> anyHidden (hiddenTags (hiddenPreferences p)) (orEmpty (m_tags m))"
  proof (rule impI)
    assume a: "showHidden p
       \<and> filterPreferences (Models (Some ms)) p = Inr (Models (Some mout), hm)
       \<and> m \<in> set mout \<and> \<not> models_exempt p m"
    with models_member[of ms p mout hm m] obtain x where
      x: "verdict (modelsFilter p) x" "mapped (modelsMap p) x = Some m" by auto
    from x(2) have "m_nsfwLevel m = m_nsfwLevel x \<and> models_exempt p m = models_exempt p x
        \<and> m_user m = m_user x \<and> m_tags m = m_tags x"
      by (auto simp: mapped_models models_exempt_def split: if_splits)
    with a x(1) show "Flags_intersects (m_nsfwLevel m) (browsingLevel p)
          \<and> \<not> (m_user m \<noteq> 0 \<and> Map_get (hiddenUsers (hiddenPreferences p)) (m_user m))
          \<and> \<not> anyHidden (hiddenTags (hiddenPreferences p)) (orEmpty (m_tags m))"
      by (auto simp: verdict_models)
  qed
  show ?thesis by (rule conjI[OF e1 conjI[OF e2 conjI[OF i1 i2]]])
qed

text \<open>
  With \<open>showHidden\<close> false, image 20 and model 1 are excluded by their ids; with
  \<open>showHidden\<close> true both are in the output, while the image with the hidden tag and the
  image of level 4 stay excluded.
\<close>

theorem showHidden_reveals_witness:
  "filterPreferences (Images (Some [image2, image3, image4])) (props3\<lparr>showHidden := False\<rparr>)
     = Inr (Images (Some []), hidden0\<lparr>h_browsingLevel := 1, h_images := 1, h_tags := 1\<rparr>)
   \<and> (showHidden props3
       \<and> filterPreferences (Images (Some [image2, image3, image4])) props3
           = Inr (Images (Some [image2]), hidden0\<lparr>h_browsingLevel := 1, h_tags := 1\<rparr>)
       \<and> image2 \<in> set [image2] \<and> \<not> images_exempt props3 image2)
   \<and> Flags_intersects (i_nsfwLevel image2) (browsingLevel props3)
   \<and> \<not> anyHidden (hiddenTags (hiddenPreferences props3)) (orEmpty (i_tagIds image2))
   \<and> filterPreferences (Models (Some [model3])) (props3\<lparr>showHidden := False\<rparr>)
     = Inr (Models (Some []), hidden0\<lparr>h_models := 1\<rparr>)
   \<and> (showHidden props3
       \<and> filterPreferences (Models (Some [model3])) props3 = Inr (Models (Some [model3]), hidden0)
       \<and> model3 \<in> set [model3] \<and> \<not> models_exempt props3 model3)
   \<and> Flags_intersects (m_nsfwLevel model3) (browsingLevel props3)
   \<and> \<not> anyHidden (hiddenTags (hiddenPreferences props3)) (orEmpty (m_tags model3))"
proof -
  have x0: "filterPreferences (Images (Some [image2, image3, image4]))
       (props3\<lparr>showHidden := False\<rparr>)
     = Inr (Images (Some []), hidden0\<lparr>h_browsingLevel := 1, h_images := 1, h_tags := 1\<rparr>)"
    by code_simp
  have x: "showHidden props3
       \<and> filterPreferences (Images (Some [image2, image3, image4])) props3
           = Inr (Images (Some [image2]), hidden0\<lparr>h_browsingLevel := 1, h_tags := 1\<rparr>)
       \<and> image2 \<in> set [image2] \<and> \<not> images_exempt props3 image2"
    by code_simp
  have al: "\<not> allowLowerLevels props3" by code_simp
  have m0: "filterPreferences (Models (Some [model3])) (props3\<lparr>showHidden := False\<rparr>)
     = Inr (Models (Some []), hidden0\<lparr>h_models := 1\<rparr>)"
    by code_simp
  have m: "showHidden props3
       \<and> filterPreferences (Models (Some [model3])) props3 = Inr (Models (Some [model3]), hidden0)
       \<and> model3 \<in> set [model3] \<and> \<not> models_exempt props3 model3"
    by code_simp
  note t = showHidden_reveals[of _ props3 _ _ "[image2, image3, image4]" "[image2]"
      "hidden0\<lparr>h_browsingLevel := 1, h_tags := 1\<rparr>" image2 "[model3]" "[model3]" hidden0 model3]
  from t x al have 1: "Flags_intersects (i_nsfwLevel image2) (browsingLevel props3)
      \<and> \<not> anyHidden (hiddenTags (hiddenPreferences props3)) (orEmpty (i_tagIds image2))"
    by simp
  from t m have 2: "Flags_intersects (m_nsfwLevel model3) (browsingLevel props3)
      \<and> \<not> anyHidden (hiddenTags (hiddenPreferences props3)) (orEmpty (m_tags model3))"
    by blast
  from x0 x m0 m 1 2 show ?thesis by blast
qed



text \<open>
  C8. Filtering is idempotent: if a call of \<open>filterPreferences\<close> for one of the eight
  content types returns a list of items, the call on that list, with the same viewer,
  browsing level, options and hidden preferences, returns the same list.
\<close>

theorem filter_idempotent:
  assumes hk: "handledKey td" and r: "filterPreferences td p = Inr (its, hid)"
  shows "\<exists>hid'. filterPreferences its p = Inr (its, hid')"
proof (cases "shortCircuit td p")
  case True
  with r shortCircuit_result[OF True] have "its = noItems td" by simp
  with noItems_again[OF hk, of p] show ?thesis by simp
next
  case False
  then have sc: "\<not> disabled p \<and> \<not> hiddenLoading (hiddenPreferences p)"
    and "\<not> dataAbsent td" by (simp_all add: shortCircuit_def)
  from this(2) show ?thesis
  proof (cases rule: present_cases)
    case (Models xs)
    let ?g = "mapped (modelsMap p)" and ?v = "verdict (modelsFilter p)"
    from r False Models models_result[of xs p]
    have its: "its = Models (Some (List.map_filter ?g (filter ?v xs)))" by simp
    from sc have n: "\<not> shortCircuit (Models (Some (List.map_filter ?g (filter ?v xs)))) p"
      by (simp add: shortCircuit_def)
    have "List.map_filter ?g (filter ?v (List.map_filter ?g (filter ?v xs)))
        = List.map_filter ?g (filter ?v xs)"
      by (rule parent_again[OF refl]) (rule models_fix)
    with models_result[OF n] show ?thesis by (simp add: its)
  next
    case (Images xs)
    from r False Images images_result[of xs p]
    have its: "its = Images (Some (filter (verdict (imagesFilter p)) xs))" by simp
    from sc have "\<not> shortCircuit (Images (Some (filter (verdict (imagesFilter p)) xs))) p"
      by (simp add: shortCircuit_def)
    from images_result[OF this] show ?thesis by (simp add: its)
  next
    case (Articles xs)
    from r False Articles articles_result[of xs p]
    have its: "its = Articles (Some (filter (verdict (articlesFilter p)) xs))" by simp
    from sc have "\<not> shortCircuit (Articles (Some (filter (verdict (articlesFilter p)) xs))) p"
      by (simp add: shortCircuit_def)
    from articles_result[OF this] show ?thesis by (simp add: its)
  next
    case (Users xs)
    from r False Users users_result[of xs p]
    have its: "its = Users (Some (filter (verdict (usersFilter p)) xs))" by simp
    from sc have "\<not> shortCircuit (Users (Some (filter (verdict (usersFilter p)) xs))) p"
      by (simp add: shortCircuit_def)
    from users_result[OF this] show ?thesis by (simp add: its)
  next
    case (Collections xs)
    let ?g = "mapped (collectionsMap p)" and ?v = "verdict (collectionsFilter p)"
    from r False Collections collections_result[of xs p]
    have its: "its = Collections (Some (List.map_filter ?g (filter ?v xs)))" by simp
    from sc have n: "\<not> shortCircuit (Collections (Some (List.map_filter ?g (filter ?v xs)))) p"
      by (simp add: shortCircuit_def)
    have "List.map_filter ?g (filter ?v (List.map_filter ?g (filter ?v xs)))
        = List.map_filter ?g (filter ?v xs)"
      by (rule parent_again[OF refl]) (rule collections_fix)
    with collections_result[OF n] show ?thesis by (simp add: its)
  next
    case (Bounties xs)
    let ?g = "mapped (bountiesMap p)" and ?v = "verdict (bountiesFilter p)"
    let ?out = "List.map_filter ?g (filter ?v xs)"
    from r False Bounties bounties_result[of xs p]
    have its: "its = Bounties (Some ?out)" by (simp split: if_splits)
    from sc have n: "\<not> shortCircuit (Bounties (Some ?out)) p"
      by (simp add: shortCircuit_def)
    have f: "?v y \<and> ?g y = Some y" if "?v x" "?g x = Some y" for x y
      using bounties_fix[OF that] by simp
    have again: "List.map_filter ?g (filter ?v ?out) = ?out"
      by (rule parent_again[OF refl]) (rule f)
    have "b_images y \<noteq> None" if "y \<in> set ?out" for y
    proof -
      from that obtain x where "?v x" "?g x = Some y"
        unfolding set_map_filter' by auto
      from bounties_fix[OF this] show ?thesis by simp
    qed
    then have "\<not> (\<exists>y\<in>set (filter ?v ?out). b_images y = None)" by auto
    with bounties_result[OF n] again show ?thesis by (simp add: its del: set_filter)
  next
    case (Posts xs)
    let ?g = "mapped (postsMap p)" and ?v = "verdict (postsFilter p)"
    from r False Posts posts_result[of xs p]
    have its: "its = Posts (Some (List.map_filter ?g (filter ?v xs)))" by simp
    from sc have n: "\<not> shortCircuit (Posts (Some (List.map_filter ?g (filter ?v xs)))) p"
      by (simp add: shortCircuit_def)
    have "List.map_filter ?g (filter ?v (List.map_filter ?g (filter ?v xs)))
        = List.map_filter ?g (filter ?v xs)"
      by (rule parent_again[OF refl]) (rule posts_fix)
    with posts_result[OF n] show ?thesis by (simp add: its)
  next
    case (Tags xs)
    from r False Tags tags_result[of xs p]
    have its: "its = Tags (Some (filter (verdict (tagsFilter p)) xs))" by simp
    from sc have "\<not> shortCircuit (Tags (Some (filter (verdict (tagsFilter p)) xs))) p"
      by (simp add: shortCircuit_def)
    from tags_result[OF this] show ?thesis by (simp add: its)
  next
    case (Unhandled k)
    with hk show ?thesis by simp
  qed
qed

text \<open>
  Three models under the mask 5, imageless parents kept: the output, filtered again, is
  the output.
\<close>

theorem filter_idempotent_witness:
  "handledKey (Models (Some [model0, model4, model2]))
   \<and> filterPreferences (Models (Some [model0, model4, model2])) (props4\<lparr>showImageless := True\<rparr>)
       = Inr (Models (Some
           [model0,
            model4\<lparr>m_images := Some
              [\<lparr>mi_id = 31, mi_tags = None, mi_nsfwLevel = 1, mi_userId = None\<rparr>,
               \<lparr>mi_id = 30, mi_tags = None, mi_nsfwLevel = 2, mi_userId = None\<rparr>]\<rparr>,
            model2\<lparr>m_images := Some []\<rparr>]),
          hidden0\<lparr>h_noImages := 1\<rparr>)
   \<and> (\<exists>hid'. filterPreferences (Models (Some
           [model0,
            model4\<lparr>m_images := Some
              [\<lparr>mi_id = 31, mi_tags = None, mi_nsfwLevel = 1, mi_userId = None\<rparr>,
               \<lparr>mi_id = 30, mi_tags = None, mi_nsfwLevel = 2, mi_userId = None\<rparr>]\<rparr>,
            model2\<lparr>m_images := Some []\<rparr>])) (props4\<lparr>showImageless := True\<rparr>)
       = Inr (Models (Some
           [model0,
            model4\<lparr>m_images := Some
              [\<lparr>mi_id = 31, mi_tags = None, mi_nsfwLevel = 1, mi_userId = None\<rparr>,
               \<lparr>mi_id = 30, mi_tags = None, mi_nsfwLevel = 2, mi_userId = None\<rparr>]\<rparr>,
            model2\<lparr>m_images := Some []\<rparr>]), hid'))"
proof -
  have k: "handledKey (Models (Some [model0, model4, model2]))" by simp
  have r: "filterPreferences (Models (Some [model0, model4, model2])) (props4\<lparr>showImageless := True\<rparr>)
       = Inr (Models (Some
           [model0,
            model4\<lparr>m_images := Some
              [\<lparr>mi_id = 31, mi_tags = None, mi_nsfwLevel = 1, mi_userId = None\<rparr>,
               \<lparr>mi_id = 30, mi_tags = None, mi_nsfwLevel = 2, mi_userId = None\<rparr>]\<rparr>,
            model2\<lparr>m_images := Some []\<rparr>]),
          hidden0\<lparr>h_noImages := 1\<rparr>)"
    by code_simp
  show ?thesis by (rule conjI[OF k conjI[OF r filter_idempotent[OF k r]]])
qed

end
